theory Spec2Isabelle
  imports Main "HOL-Library.Word" "HOL-Library.Multiset"
begin

unbundle bit_operations_syntax

section \<open>Boulder Dash: cave decoder and tick engine of BoulderDash/index.js\<close>

text \<open>
  The JavaScript of \<^verbatim>\<open>BoulderDash/index.js\<close> is embedded function by function.
  Numbers that may be \<^verbatim>\<open>undefined\<close> or \<^verbatim>\<open>NaN\<close> (an array read out of range, arithmetic
  on such a read) are \<open>option\<close> values with \<open>None\<close> for both: every use the program makes of
  them (comparison, bitwise and, arithmetic, property access) treats the two alike.
  An uncaught exception is the left injection of a sum.
\<close>

datatype error = TypeError

datatype logmsg =
    ExplodeAt int int
  | RockfordAppears int int
  | CannotFindObject "nat option"

subsection \<open>Random number with seed\<close>

text \<open>
  JavaScript numbers are IEEE-754 doubles. \<open>fl\<close> rounds a natural number to the nearest
  double (ties to even): below \<open>2 ^ 53\<close> every natural number is a double; from there on
  a double keeps the 53 leading bits.
\<close>

fun bitlen :: "nat \<Rightarrow> nat" where
  "bitlen n = (if n = 0 then 0 else Suc (bitlen (n div 2)))"

declare bitlen.simps [simp del]

definition fl :: "nat \<Rightarrow> nat" where
  "fl n =
     (if n < 2 ^ 53 then n
      else let e = bitlen n - 53; q = n div 2 ^ e; r = n mod 2 ^ e; h = 2 ^ (e - 1)
           in if r < h \<or> (r = h \<and> even q) then q * 2 ^ e else (q + 1) * 2 ^ e)"

definition LCG_MULTIPLIER :: nat where "LCG_MULTIPLIER = 1664525"
definition LCG_INCREMENT :: nat where "LCG_INCREMENT = 1013904223"
definition LCG_MODULUS :: nat where "LCG_MODULUS = 2 ^ 32"

text \<open>\<^verbatim>\<open>setSeed(seed)\<close>: \<^verbatim>\<open>currentSeed = Math.floor(seed) % LCG_MODULUS\<close>; the result is the new
  \<^verbatim>\<open>currentSeed\<close>.\<close>

definition setSeed :: "nat option \<Rightarrow> nat option" where
  "setSeed seed = map_option (\<lambda>x. x mod LCG_MODULUS) seed"

text \<open>\<^verbatim>\<open>nextRandom()\<close>: the pair of the value returned and the new \<^verbatim>\<open>currentSeed\<close>.\<close>

definition nextRandom :: "nat option \<Rightarrow> nat option \<times> nat option" where
  "nextRandom currentSeed =
     (let s' = map_option
                 (\<lambda>x. fl (fl (LCG_MULTIPLIER * x) + LCG_INCREMENT) mod LCG_MODULUS) currentSeed
      in (s', s'))"

definition randInt255 :: "nat option \<Rightarrow> nat option \<times> nat option" where
  "randInt255 currentSeed =
     (let (rand32Bit, s') = nextRandom currentSeed
      in (map_option (\<lambda>x. x mod 256) rand32Bit, s'))"


subsection \<open>Object types\<close>

record otype =
  tname :: string
  tgid :: nat
  tcode :: nat

definition types :: "otype list" where
  "types =
    [\<lparr>tname = ''space'', tgid = 0, tcode = 0x00\<rparr>,
     \<lparr>tname = ''dirt'', tgid = 58, tcode = 0x01\<rparr>,
     \<lparr>tname = ''brick'', tgid = 52, tcode = 0x02\<rparr>,
     \<lparr>tname = ''magic'', tgid = 52, tcode = 0x03\<rparr>,
     \<lparr>tname = ''outbox'', tgid = 50, tcode = 0x04\<rparr>,
     \<lparr>tname = ''steel'', tgid = 50, tcode = 0x07\<rparr>,
     \<lparr>tname = ''firefly'', tgid = 89, tcode = 0x08\<rparr>,
     \<lparr>tname = ''boulder'', tgid = 57, tcode = 0x10\<rparr>,
     \<lparr>tname = ''diamond'', tgid = 81, tcode = 0x14\<rparr>,
     \<lparr>tname = ''inbox'', tgid = 50, tcode = 0x25\<rparr>,
     \<lparr>tname = ''butterfly'', tgid = 73, tcode = 0x30\<rparr>,
     \<lparr>tname = ''rockford'', tgid = 1, tcode = 0x38\<rparr>,
     \<lparr>tname = ''amoeba'', tgid = 65, tcode = 0x3A\<rparr>]"

text \<open>\<^verbatim>\<open>types.find(t => t.name === n)\<close> and \<^verbatim>\<open>types.find(t => t.code == c)\<close>.\<close>

definition typeNamed :: "string \<Rightarrow> otype option" where
  "typeNamed n = find (\<lambda>t. tname t = n) types"

definition typeCoded :: "nat option \<Rightarrow> otype option" where
  "typeCoded c = find (\<lambda>t. Some (tcode t) = c) types"

subsection \<open>Cave loading and decoding\<close>

text \<open>
  \<^verbatim>\<open>cave\<close> is an array of 22 row arrays. A row array takes a value at any property key, so a
  row is a function from the column key to the value stored (\<open>None\<close> where nothing is);
  the rows themselves are the 22 made at start, and an access \<^verbatim>\<open>cave[r][c] = v\<close> with \<open>r\<close>
  outside them (or \<open>NaN\<close>) throws a \<^verbatim>\<open>TypeError\<close>.
\<close>

type_synonym grid = "int \<Rightarrow> int \<Rightarrow> nat option"

definition rows :: int where "rows = 22"
definition cols :: int where "cols = 40"

definition cave0 :: grid where
  "cave0 = (\<lambda>row col. if 0 \<le> row \<and> row < rows \<and> 0 \<le> col \<and> col < cols then Some 0 else None)"

text \<open>\<^verbatim>\<open>xs[i]\<close>: \<^verbatim>\<open>undefined\<close> out of range.\<close>

definition rd :: "'a list \<Rightarrow> nat \<Rightarrow> 'a option" where
  "rd xs i = (if i < length xs then Some (xs ! i) else None)"

definition rdi :: "'a list \<Rightarrow> int \<Rightarrow> 'a option" where
  "rdi xs i = (if 0 \<le> i then rd xs (nat i) else None)"

text \<open>Addition, comparison and bitwise and of numbers that may be \<^verbatim>\<open>undefined\<close> or \<open>NaN\<close>.\<close>

definition jsadd :: "nat option \<Rightarrow> nat option \<Rightarrow> nat option" where
  "jsadd a b = (case a of None \<Rightarrow> None | Some x \<Rightarrow> (case b of None \<Rightarrow> None | Some y \<Rightarrow> Some (x + y)))"

definition jslt :: "nat option \<Rightarrow> nat option \<Rightarrow> bool" where
  "jslt a b = (case a of None \<Rightarrow> False | Some x \<Rightarrow> (case b of None \<Rightarrow> False | Some y \<Rightarrow> x < y))"

definition jsand :: "nat option \<Rightarrow> nat \<Rightarrow> nat" where
  "jsand a m = (case a of None \<Rightarrow> 0 | Some x \<Rightarrow> x AND m)"

text \<open>The bound of \<^verbatim>\<open>for (let i = 0; i < len; i++)\<close>: no round when \<^verbatim>\<open>len\<close> is \<^verbatim>\<open>undefined\<close>.\<close>

definition bound :: "nat option \<Rightarrow> nat" where
  "bound len = (case len of None \<Rightarrow> 0 | Some n \<Rightarrow> n)"

fun foldE :: "('a \<Rightarrow> 's \<Rightarrow> error + 's) \<Rightarrow> 'a list \<Rightarrow> 's \<Rightarrow> error + 's" where
  "foldE f [] s = Inr s"
| "foldE f (x # xs) s = (case f x s of Inl e \<Rightarrow> Inl e | Inr s' \<Rightarrow> foldE f xs s')"

text \<open>\<^verbatim>\<open>cave[row][col] = v\<close> with \<^verbatim>\<open>row\<close> one of the 22 rows, and in general.\<close>

definition put :: "grid \<Rightarrow> int \<Rightarrow> int \<Rightarrow> nat option \<Rightarrow> grid" where
  "put cave row col v = cave(row := (cave row)(col := v))"

definition wr :: "grid \<Rightarrow> int option \<Rightarrow> int option \<Rightarrow> nat option \<Rightarrow> error + grid" where
  "wr cave row col v =
     (case row of
        None \<Rightarrow> Inl TypeError
      | Some r \<Rightarrow>
          if 0 \<le> r \<and> r < rows
          then (case col of None \<Rightarrow> Inr cave | Some c \<Rightarrow> Inr (put cave r c v))
          else Inl TypeError)"

text \<open>\<^verbatim>\<open>getDXDYFromDirection(direction)\<close>: the pair \<open>(dx, dy)\<close>.\<close>

definition getDXDYFromDirection :: "nat option \<Rightarrow> int \<times> int" where
  "getDXDYFromDirection direction =
     (if direction = Some 1 then (0, -1)
      else if direction = Some 2 then (1, -1)
      else if direction = Some 3 then (1, 0)
      else if direction = Some 4 then (1, 1)
      else if direction = Some 5 then (0, 1)
      else if direction = Some 6 then (-1, 1)
      else if direction = Some 7 then (-1, 0)
      else if direction = Some 8 then (-1, -1)
      else (0, 0))"

definition rawCaveDatas :: "nat list list" where
  "rawCaveDatas = [
    [0x01, 0x14, 0x0A, 0x0F, 0x0A, 0x0B, 0x0C, 0x0D, 0x0E, 0x0C, 0x0C, 0x0C, 0x0C, 0x0C, 0x96,
     0x6E, 0x46, 0x28, 0x1E, 0x08, 0x0B, 0x09, 0xD4, 0x20, 0x00, 0x10, 0x14, 0x00, 0x3C, 0x32,
     0x09, 0x00, 0x42, 0x01, 0x09, 0x1E, 0x02, 0x42, 0x09, 0x10, 0x1E, 0x02, 0x25, 0x03, 0x04,
     0x04, 0x26, 0x12, 0xFF],
    [0x02, 0x14, 0x14, 0x32, 0x03, 0x00, 0x01, 0x57, 0x58, 0x0A, 0x0C, 0x09, 0x0D, 0x0A, 0x96,
     0x6E, 0x46, 0x46, 0x46, 0x0A, 0x04, 0x09, 0x00, 0x00, 0x00, 0x10, 0x14, 0x08, 0x3C, 0x32,
     0x09, 0x02, 0x42, 0x01, 0x08, 0x26, 0x02, 0x42, 0x01, 0x0F, 0x26, 0x02, 0x42, 0x08, 0x03,
     0x14, 0x04, 0x42, 0x10, 0x03, 0x14, 0x04, 0x42, 0x18, 0x03, 0x14, 0x04, 0x42, 0x20, 0x03,
     0x14, 0x04, 0x40, 0x01, 0x05, 0x26, 0x02, 0x40, 0x01, 0x0B, 0x26, 0x02, 0x40, 0x01, 0x12,
     0x26, 0x02, 0x40, 0x14, 0x03, 0x14, 0x04, 0x25, 0x12, 0x15, 0x04, 0x12, 0x16, 0xFF],
    [0x03, 0x00, 0x0F, 0x00, 0x00, 0x32, 0x36, 0x34, 0x37, 0x18, 0x17, 0x18, 0x17, 0x15, 0x96,
     0x64, 0x5A, 0x50, 0x46, 0x09, 0x08, 0x09, 0x04, 0x00, 0x02, 0x10, 0x14, 0x00, 0x64, 0x32,
     0x09, 0x00, 0x25, 0x03, 0x04, 0x04, 0x27, 0x14, 0xFF],
    [0x04, 0x14, 0x05, 0x14, 0x00, 0x6E, 0x70, 0x73, 0x77, 0x24, 0x24, 0x24, 0x24, 0x24, 0x78,
     0x64, 0x50, 0x3C, 0x32, 0x04, 0x08, 0x09, 0x00, 0x00, 0x10, 0x00, 0x00, 0x00, 0x14, 0x00,
     0x00, 0x00, 0x25, 0x01, 0x03, 0x04, 0x26, 0x16, 0x81, 0x08, 0x0A, 0x04, 0x04, 0x00, 0x30,
     0x0A, 0x0B, 0x81, 0x10, 0x0A, 0x04, 0x04, 0x00, 0x30, 0x12, 0x0B, 0x81, 0x18, 0x0A, 0x04,
     0x04, 0x00, 0x30, 0x1A, 0x0B, 0x81, 0x20, 0x0A, 0x04, 0x04, 0x00, 0x30, 0x22, 0x0B, 0xFF],
    [0x05, 0x14, 0x32, 0x5A, 0x00, 0x00, 0x00, 0x00, 0x00, 0x04, 0x05, 0x06, 0x07, 0x08, 0x96,
     0x78, 0x5A, 0x3C, 0x1E, 0x09, 0x0A, 0x09, 0x00, 0x00, 0x00, 0x00, 0x00, 0x00, 0x00, 0x00,
     0x00, 0x00, 0x25, 0x01, 0x03, 0x04, 0x27, 0x16, 0x80, 0x08, 0x0A, 0x03, 0x03, 0x00, 0x80,
     0x10, 0x0A, 0x03, 0x03, 0x00, 0x80, 0x18, 0x0A, 0x03, 0x03, 0x00, 0x80, 0x20, 0x0A, 0x03,
     0x03, 0x00, 0x14, 0x09, 0x0C, 0x08, 0x0A, 0x0A, 0x14, 0x11, 0x0C, 0x08, 0x12, 0x0A, 0x14,
     0x19, 0x0C, 0x08, 0x1A, 0x0A, 0x14, 0x21, 0x0C, 0x08, 0x22, 0x0A, 0x80, 0x08, 0x10, 0x03,
     0x03, 0x00, 0x80, 0x10, 0x10, 0x03, 0x03, 0x00, 0x80, 0x18, 0x10, 0x03, 0x03, 0x00, 0x80,
     0x20, 0x10, 0x03, 0x03, 0x00, 0x14, 0x09, 0x12, 0x08, 0x0A, 0x10, 0x14, 0x11, 0x12, 0x08,
     0x12, 0x10, 0x14, 0x19, 0x12, 0x08, 0x1A, 0x10, 0x14, 0x21, 0x12, 0x08, 0x22, 0x10, 0xFF],
    [0x06, 0x14, 0x28, 0x3C, 0x00, 0x14, 0x15, 0x16, 0x17, 0x04, 0x06, 0x07, 0x08, 0x08, 0x96,
     0x78, 0x64, 0x5A, 0x50, 0x0E, 0x0A, 0x09, 0x00, 0x00, 0x10, 0x00, 0x00, 0x00, 0x32, 0x00,
     0x00, 0x00, 0x82, 0x01, 0x03, 0x0A, 0x04, 0x00, 0x82, 0x01, 0x06, 0x0A, 0x04, 0x00, 0x82,
     0x01, 0x09, 0x0A, 0x04, 0x00, 0x82, 0x01, 0x0C, 0x0A, 0x04, 0x00, 0x41, 0x0A, 0x03, 0x0D,
     0x04, 0x14, 0x03, 0x05, 0x08, 0x04, 0x05, 0x14, 0x03, 0x08, 0x08, 0x04, 0x08, 0x14, 0x03,
     0x0B, 0x08, 0x04, 0x0B, 0x14, 0x03, 0x0E, 0x08, 0x04, 0x0E, 0x82, 0x1D, 0x03, 0x0A, 0x04,
     0x00, 0x82, 0x1D, 0x06, 0x0A, 0x04, 0x00, 0x82, 0x1D, 0x09, 0x0A, 0x04, 0x00, 0x82, 0x1D,
     0x0C, 0x0A, 0x04, 0x00, 0x41, 0x1D, 0x03, 0x0D, 0x04, 0x14, 0x24, 0x05, 0x08, 0x23, 0x05,
     0x14, 0x24, 0x08, 0x08, 0x23, 0x08, 0x14, 0x24, 0x0B, 0x08, 0x23, 0x0B, 0x14, 0x24, 0x0E,
     0x08, 0x23, 0x0E, 0x25, 0x03, 0x14, 0x04, 0x26, 0x14, 0xFF],
    [0x07, 0x4B, 0x0A, 0x14, 0x02, 0x07, 0x08, 0x0A, 0x09, 0x0F, 0x14, 0x19, 0x19, 0x19, 0x78,
     0x78, 0x78, 0x78, 0x78, 0x09, 0x0A, 0x0D, 0x00, 0x00, 0x00, 0x10, 0x08, 0x00, 0x64, 0x28,
     0x02, 0x00, 0x42, 0x01, 0x07, 0x0C, 0x02, 0x42, 0x1C, 0x05, 0x0B, 0x02, 0x7A, 0x13, 0x15,
     0x02, 0x02, 0x14, 0x04, 0x06, 0x14, 0x04, 0x0E, 0x14, 0x04, 0x16, 0x14, 0x22, 0x04, 0x14,
     0x22, 0x0C, 0x14, 0x22, 0x16, 0x25, 0x14, 0x03, 0x04, 0x27, 0x07, 0xFF],
    [0x08, 0x14, 0x0A, 0x14, 0x01, 0x03, 0x04, 0x05, 0x06, 0x0A, 0x0F, 0x14, 0x14, 0x14, 0x78,
     0x6E, 0x64, 0x5A, 0x50, 0x02, 0x0E, 0x09, 0x00, 0x00, 0x00, 0x10, 0x08, 0x00, 0x5A, 0x32,
     0x02, 0x00, 0x14, 0x04, 0x06, 0x14, 0x22, 0x04, 0x14, 0x22, 0x0C, 0x04, 0x00, 0x05, 0x25,
     0x14, 0x03, 0x42, 0x01, 0x07, 0x0C, 0x02, 0x42, 0x01, 0x0F, 0x0C, 0x02, 0x42, 0x1C, 0x05,
     0x0B, 0x02, 0x42, 0x1C, 0x0D, 0x0B, 0x02, 0x43, 0x0E, 0x11, 0x08, 0x02, 0x14, 0x0C, 0x10,
     0x00, 0x0E, 0x12, 0x14, 0x13, 0x12, 0x41, 0x0E, 0x0F, 0x08, 0x02, 0xFF],
    [0x09, 0x14, 0x05, 0x0A, 0x64, 0x89, 0x8C, 0xFB, 0x33, 0x4B, 0x4B, 0x50, 0x55, 0x5A, 0x96,
     0x96, 0x82, 0x82, 0x78, 0x08, 0x04, 0x09, 0x00, 0x00, 0x10, 0x14, 0x00, 0x00, 0xF0, 0x78,
     0x00, 0x00, 0x82, 0x05, 0x0A, 0x0D, 0x0D, 0x00, 0x01, 0x0C, 0x0A, 0x82, 0x19, 0x0A, 0x0D,
     0x0D, 0x00, 0x01, 0x1F, 0x0A, 0x42, 0x11, 0x12, 0x09, 0x02, 0x40, 0x11, 0x13, 0x09, 0x02,
     0x25, 0x07, 0x0C, 0x04, 0x08, 0x0C, 0xFF],
    [0x0A, 0x14, 0x19, 0x3C, 0x00, 0x00, 0x00, 0x00, 0x00, 0x0C, 0x0C, 0x0C, 0x0C, 0x0C, 0x96,
     0x82, 0x78, 0x6E, 0x64, 0x06, 0x08, 0x09, 0x00, 0x00, 0x00, 0x00, 0x00, 0x00, 0x00, 0x00,
     0x00, 0x00, 0x25, 0x0D, 0x03, 0x04, 0x27, 0x16, 0x54, 0x05, 0x04, 0x11, 0x03, 0x54, 0x15,
     0x04, 0x11, 0x05, 0x80, 0x05, 0x0B, 0x11, 0x03, 0x08, 0xC2, 0x01, 0x04, 0x15, 0x11, 0x00,
     0x0D, 0x04, 0xC2, 0x07, 0x06, 0x0D, 0x0D, 0x00, 0x0D, 0x06, 0xC2, 0x09, 0x08, 0x09, 0x09,
     0x00, 0x0D, 0x08, 0xC2, 0x0B, 0x0A, 0x05, 0x05, 0x00, 0x0D, 0x0A, 0x82, 0x03, 0x06, 0x03,
     0x0F, 0x08, 0x00, 0x04, 0x06, 0x54, 0x04, 0x10, 0x04, 0x04, 0xFF],
    [0x0B, 0x14, 0x32, 0x00, 0x00, 0x04, 0x66, 0x97, 0x64, 0x06, 0x06, 0x06, 0x06, 0x06, 0x78,
     0x78, 0x96, 0x96, 0xF0, 0x0B, 0x08, 0x09, 0x00, 0x00, 0x00, 0x10, 0x08, 0x00, 0x64, 0x50,
     0x02, 0x00, 0x42, 0x0A, 0x03, 0x09, 0x04, 0x42, 0x14, 0x03, 0x09, 0x04, 0x42, 0x1E, 0x03,
     0x09, 0x04, 0x42, 0x09, 0x16, 0x09, 0x00, 0x42, 0x0C, 0x0F, 0x11, 0x02, 0x42, 0x05, 0x0B,
     0x09, 0x02, 0x42, 0x0F, 0x0B, 0x09, 0x02, 0x42, 0x19, 0x0B, 0x09, 0x02, 0x42, 0x1C, 0x13,
     0x0B, 0x01, 0x14, 0x04, 0x03, 0x14, 0x0E, 0x03, 0x14, 0x18, 0x03, 0x14, 0x22, 0x03, 0x14,
     0x04, 0x16, 0x14, 0x23, 0x15, 0x25, 0x14, 0x14, 0x04, 0x26, 0x11, 0xFF],
    [0x0C, 0x14, 0x14, 0x00, 0x00, 0x3C, 0x02, 0x3B, 0x66, 0x13, 0x13, 0x0E, 0x10, 0x15, 0xB4,
     0xAA, 0xA0, 0xA0, 0xA0, 0x0C, 0x0A, 0x09, 0x00, 0x00, 0x00, 0x10, 0x14, 0x00, 0x3C, 0x32,
     0x09, 0x00, 0x42, 0x0A, 0x05, 0x12, 0x04, 0x42, 0x0E, 0x05, 0x12, 0x04, 0x42, 0x12, 0x05,
     0x12, 0x04, 0x42, 0x16, 0x05, 0x12, 0x04, 0x42, 0x02, 0x06, 0x0B, 0x02, 0x42, 0x02, 0x0A,
     0x0B, 0x02, 0x42, 0x02, 0x0E, 0x0F, 0x02, 0x42, 0x02, 0x12, 0x0B, 0x02, 0x81, 0x1E, 0x04,
     0x04, 0x04, 0x00, 0x08, 0x20, 0x05, 0x81, 0x1E, 0x09, 0x04, 0x04, 0x00, 0x08, 0x20, 0x0A,
     0x81, 0x1E, 0x0E, 0x04, 0x04, 0x00, 0x08, 0x20, 0x0F, 0x25, 0x03, 0x14, 0x04, 0x27, 0x16,
     0xFF],
    [0x0D, 0x8C, 0x05, 0x08, 0x00, 0x01, 0x02, 0x03, 0x04, 0x32, 0x37, 0x3C, 0x46, 0x50, 0xA0,
     0x9B, 0x96, 0x91, 0x8C, 0x06, 0x08, 0x0D, 0x00, 0x00, 0x10, 0x00, 0x00, 0x00, 0x28, 0x00,
     0x00, 0x00, 0x25, 0x12, 0x03, 0x04, 0x0A, 0x03, 0x3A, 0x14, 0x03, 0x42, 0x05, 0x12, 0x1E,
     0x02, 0x70, 0x05, 0x13, 0x1E, 0x02, 0x50, 0x05, 0x14, 0x1E, 0x02, 0xC1, 0x05, 0x15, 0x1E,
     0x02, 0xFF],
    [0x0E, 0x14, 0x0A, 0x14, 0x00, 0x00, 0x00, 0x00, 0x00, 0x1E, 0x23, 0x28, 0x2A, 0x2D, 0x96,
     0x91, 0x8C, 0x87, 0x82, 0x0C, 0x08, 0x09, 0x00, 0x00, 0x10, 0x00, 0x00, 0x00, 0x00, 0x00,
     0x00, 0x00, 0x81, 0x0A, 0x0A, 0x0D, 0x0D, 0x00, 0x70, 0x0B, 0x0B, 0x0C, 0x03, 0xC1, 0x0C,
     0x0A, 0x03, 0x0D, 0xC1, 0x10, 0x0A, 0x03, 0x0D, 0xC1, 0x14, 0x0A, 0x03, 0x0D, 0x50, 0x16,
     0x08, 0x0C, 0x02, 0x48, 0x16, 0x07, 0x0C, 0x02, 0xC1, 0x17, 0x06, 0x03, 0x04, 0xC1, 0x1B,
     0x06, 0x03, 0x04, 0xC1, 0x1F, 0x06, 0x03, 0x04, 0x25, 0x03, 0x03, 0x04, 0x27, 0x14, 0xFF],
    [0x0F, 0x08, 0x0A, 0x14, 0x01, 0x1D, 0x1E, 0x1F, 0x20, 0x0F, 0x14, 0x14, 0x19, 0x1E, 0x78,
     0x78, 0x78, 0x78, 0x8C, 0x08, 0x0E, 0x09, 0x00, 0x00, 0x00, 0x10, 0x08, 0x00, 0x64, 0x50,
     0x02, 0x00, 0x42, 0x02, 0x04, 0x0A, 0x03, 0x42, 0x0F, 0x0D, 0x0A, 0x01, 0x41, 0x0C, 0x0E,
     0x03, 0x02, 0x43, 0x0C, 0x0F, 0x03, 0x02, 0x04, 0x14, 0x16, 0x25, 0x14, 0x03, 0xFF],
    [0x10, 0x14, 0x0A, 0x14, 0x01, 0x78, 0x81, 0x7E, 0x7B, 0x0C, 0x0F, 0x0F, 0x0F, 0x0C, 0x96,
     0x96, 0x96, 0x96, 0x96, 0x09, 0x0A, 0x09, 0x00, 0x00, 0x10, 0x00, 0x00, 0x00, 0x32, 0x00,
     0x00, 0x00, 0x25, 0x01, 0x03, 0x04, 0x27, 0x04, 0x81, 0x08, 0x13, 0x04, 0x04, 0x00, 0x08,
     0x0A, 0x14, 0xC2, 0x07, 0x0A, 0x06, 0x08, 0x43, 0x07, 0x0A, 0x06, 0x02, 0x81, 0x10, 0x13,
     0x04, 0x04, 0x00, 0x08, 0x12, 0x14, 0xC2, 0x0F, 0x0A, 0x06, 0x08, 0x43, 0x0F, 0x0A, 0x06,
     0x02, 0x81, 0x18, 0x13, 0x04, 0x04, 0x00, 0x08, 0x1A, 0x14, 0x81, 0x20, 0x13, 0x04, 0x04,
     0x00, 0x08, 0x22, 0x14, 0xFF],
    [0x11, 0x14, 0x1E, 0x00, 0x0A, 0x0B, 0x0C, 0x0D, 0x0E, 0x06, 0x06, 0x06, 0x06, 0x06, 0x0A,
     0x0A, 0x0A, 0x0A, 0x0A, 0x0E, 0x02, 0x09, 0x00, 0x00, 0x00, 0x14, 0x00, 0x00, 0xFF, 0x09,
     0x00, 0x00, 0x87, 0x00, 0x02, 0x28, 0x16, 0x07, 0x87, 0x00, 0x02, 0x14, 0x0C, 0x00, 0x32,
     0x0A, 0x0C, 0x10, 0x0A, 0x04, 0x01, 0x0A, 0x05, 0x25, 0x03, 0x05, 0x04, 0x12, 0x0C, 0xFF],
    [0x12, 0x14, 0x0A, 0x00, 0x0A, 0x0B, 0x0C, 0x0D, 0x0E, 0x10, 0x10, 0x10, 0x10, 0x10, 0x0F,
     0x0F, 0x0F, 0x0F, 0x0F, 0x06, 0x0F, 0x09, 0x00, 0x00, 0x00, 0x00, 0x00, 0x00, 0x00, 0x00,
     0x00, 0x00, 0x87, 0x00, 0x02, 0x28, 0x16, 0x07, 0x87, 0x00, 0x02, 0x14, 0x0C, 0x01, 0x50,
     0x01, 0x03, 0x09, 0x03, 0x48, 0x02, 0x03, 0x08, 0x03, 0x54, 0x01, 0x05, 0x08, 0x03, 0x50,
     0x01, 0x06, 0x07, 0x03, 0x50, 0x12, 0x03, 0x09, 0x05, 0x54, 0x12, 0x05, 0x08, 0x05, 0x50,
     0x12, 0x06, 0x07, 0x05, 0x25, 0x01, 0x04, 0x04, 0x12, 0x04, 0xFF],
    [0x13, 0x04, 0x0A, 0x00, 0x0A, 0x0B, 0x0C, 0x0D, 0x0E, 0x0E, 0x0E, 0x0E, 0x0E, 0x0E, 0x14,
     0x14, 0x14, 0x14, 0x14, 0x06, 0x08, 0x09, 0x00, 0x00, 0x00, 0x00, 0x00, 0x00, 0x00, 0x00,
     0x00, 0x00, 0x87, 0x00, 0x02, 0x28, 0x16, 0x07, 0x87, 0x00, 0x02, 0x14, 0x0C, 0x00, 0x54,
     0x01, 0x0C, 0x12, 0x02, 0x88, 0x0F, 0x09, 0x04, 0x04, 0x08, 0x25, 0x08, 0x03, 0x04, 0x12,
     0x07, 0xFF],
    [0x14, 0x03, 0x1E, 0x00, 0x00, 0x00, 0x00, 0x00, 0x00, 0x06, 0x06, 0x06, 0x06, 0x06, 0x14,
     0x14, 0x14, 0x14, 0x14, 0x06, 0x08, 0x09, 0x00, 0x00, 0x00, 0x00, 0x00, 0x00, 0x00, 0x00,
     0x00, 0x00, 0x87, 0x00, 0x02, 0x28, 0x16, 0x07, 0x87, 0x00, 0x02, 0x14, 0x0C, 0x01, 0xD0,
     0x0B, 0x03, 0x03, 0x02, 0x80, 0x0B, 0x07, 0x03, 0x06, 0x00, 0x43, 0x0B, 0x06, 0x03, 0x02,
     0x43, 0x0B, 0x0A, 0x03, 0x02, 0x50, 0x08, 0x07, 0x03, 0x03, 0x25, 0x03, 0x03, 0x04, 0x09,
     0x0A, 0xFF]]"

text \<open>The body of the two fill loops of \<^verbatim>\<open>caveLoad\<close>, on the pair of \<^verbatim>\<open>currentSeed\<close> and
  \<^verbatim>\<open>cave\<close>.\<close>

definition fillCell :: "nat list \<Rightarrow> int \<Rightarrow> int \<Rightarrow> nat option \<times> grid \<Rightarrow> nat option \<times> grid" where
  "fillCell hex row col st =
     (let (seed, cave) = st in
      if row = 0 \<or> row = rows - 1 \<or> col = 0 \<or> col = cols - 1
      then (seed, put cave row col (map_option tcode (typeNamed ''steel'')))
      else
        let cave1 = put cave row col (map_option tcode (typeNamed ''dirt''));
            (rand, seed') = randInt255 seed;
            cave2 =
              (if jslt rand (jsadd (jsadd (jsadd (rd hex 0x1C) (rd hex 0x1D)) (rd hex 0x1E)) (rd hex 0x1F))
               then
                 let c4 = put cave1 row col (rd hex 0x1B) in
                 if jslt rand (jsadd (jsadd (rd hex 0x1C) (rd hex 0x1D)) (rd hex 0x1E))
                 then
                   let c3 = put c4 row col (rd hex 0x1A) in
                   if jslt rand (jsadd (rd hex 0x1C) (rd hex 0x1D))
                   then
                     let c2 = put c3 row col (rd hex 0x19) in
                     if jslt rand (rd hex 0x1C) then put c2 row col (rd hex 0x18) else c2
                   else c3
                 else c4
               else cave1)
        in (seed', cave2))"

definition fillPass :: "nat list \<Rightarrow> nat option \<times> grid \<Rightarrow> nat option \<times> grid" where
  "fillPass hex st =
     fold (\<lambda>row. fold (\<lambda>col. fillCell hex row col) [0..cols - 1]) [0..rows - 1] st"

text \<open>One round of the \<^verbatim>\<open>while\<close> loop of \<^verbatim>\<open>caveLoad\<close>: the new \<^verbatim>\<open>index\<close> and \<^verbatim>\<open>cave\<close>.\<close>

definition instrStep :: "nat list \<Rightarrow> nat \<Rightarrow> grid \<Rightarrow> error + nat \<times> grid" where
  "instrStep hex index cave =
     (let code = jsand (rd hex index) 0x3F;
          id = drop_bit 6 (jsand (rd hex index) 0xC0);
          col = map_option int (rd hex (index + 1));
          row = map_option (\<lambda>b. int b - 2) (rd hex (index + 2))
      in
      if id = 0 then
        (case wr cave row col (Some code) of
           Inl e \<Rightarrow> Inl e
         | Inr cave' \<Rightarrow> Inr (index + 3, cave'))
      else if id = 1 then
        (let len = rd hex (index + 3);
             (dx, dy) = getDXDYFromDirection (jsadd (rd hex (index + 4)) (Some 1))
         in case foldE (\<lambda>i c. wr c (map_option (\<lambda>r. r + dy * int i) row)
                                   (map_option (\<lambda>x. x + dx * int i) col) (Some code))
                       [0..<bound len] cave of
              Inl e \<Rightarrow> Inl e
            | Inr cave' \<Rightarrow> Inr (index + 5, cave'))
      else if id = 2 then
        (let len = rd hex (index + 3);
             hei = rd hex (index + 4);
             fil = rd hex (index + 5)
         in case foldE (\<lambda>y. foldE (\<lambda>x c.
                           if y = 0 \<or> int y = int (bound hei) - 1 \<or> x = 0 \<or> int x = int (bound len) - 1
                           then wr c (map_option (\<lambda>r. r + int y) row)
                                     (map_option (\<lambda>k. k + int x) col) (Some code)
                           else wr c (map_option (\<lambda>r. r + int y) row)
                                     (map_option (\<lambda>k. k + int x) col) fil)
                         [0..<bound len])
                       [0..<bound hei] cave of
              Inl e \<Rightarrow> Inl e
            | Inr cave' \<Rightarrow> Inr (index + 6, cave'))
      else if id = 3 then
        (let len = rd hex (index + 3);
             hei = rd hex (index + 4)
         in case foldE (\<lambda>y. foldE (\<lambda>x c.
                           wr c (map_option (\<lambda>r. r + int y) row)
                                (map_option (\<lambda>k. k + int x) col) (Some code))
                         [0..<bound len])
                       [0..<bound hei] cave of
              Inl e \<Rightarrow> Inl e
            | Inr cave' \<Rightarrow> Inr (index + 5, cave'))
      else Inr (index, cave))"


text \<open>
  The loop moves \<^verbatim>\<open>index\<close> forward in every round that does not throw, and a round at
  or past the end of \<^verbatim>\<open>hex\<close> throws: the loop ends.
\<close>

lemma kind_le_3: "drop_bit 6 (jsand b 0xC0) \<le> (3::nat)"
proof (cases b)
  case None
  then show ?thesis by (simp add: jsand_def)
next
  case (Some x)
  have "int x AND 192 \<le> 192" by (rule AND_upper2) simp
  then have "int (x AND 192) \<le> int 192" by (simp add: and_nat_def)
  then have "x AND 192 \<le> 192" by linarith
  then have "(x AND 192) div 64 \<le> 192 div 64" by (rule div_le_mono)
  then show ?thesis using Some by (simp add: jsand_def drop_bit_eq_div)
qed

lemma instrStep_progress:
  assumes "instrStep hex index cave = Inr (index', cave')"
  shows "index < length hex \<and> index < index'"
proof -
  have k: "drop_bit 6 (jsand (rd hex index) 0xC0) \<le> (3::nat)" by (rule kind_le_3)
  have adv: "index < index'"
    using assms k
    by (auto simp: instrStep_def Let_def split: if_splits sum.splits prod.splits)
  have "index < length hex"
  proof (rule ccontr)
    assume "\<not> index < length hex"
    then have "rd hex index = None" and "rd hex (index + 2) = None"
      by (simp_all add: rd_def)
    then have "instrStep hex index cave = Inl TypeError"
      by (simp add: instrStep_def jsand_def wr_def)
    with assms show False by simp
  qed
  with adv show ?thesis by simp
qed

function caveInstr :: "nat list \<Rightarrow> nat \<Rightarrow> grid \<Rightarrow> error + grid" where
  "caveInstr hex index cave =
     (if rd hex index \<noteq> Some 0xFF
      then (case instrStep hex index cave of
              Inl e \<Rightarrow> Inl e
            | Inr (index', cave') \<Rightarrow> caveInstr hex index' cave')
      else Inr cave)"
  by pat_completeness auto
termination
proof (relation "measure (\<lambda>(hex, index, cave). length hex - index)")
  show "wf (measure (\<lambda>(hex, index, cave). length hex - index))" by simp
next
  fix hex :: "nat list" and index :: nat and cave :: grid and x2 index' cave'
  assume "instrStep hex index cave = Inr x2" and "(index', cave') = x2"
  then have "instrStep hex index cave = Inr (index', cave')" by simp
  then have "index < length hex \<and> index < index'" by (rule instrStep_progress)
  then show "((hex, index', cave'), (hex, index, cave))
               \<in> measure (\<lambda>(hex, index, cave). length hex - index)"
    by auto
qed

declare caveInstr.simps [simp del]

text \<open>
  \<^verbatim>\<open>caveLoad\<close> after the cave's bytes are parsed (\<open>caveDecode\<close>), and
  \<^verbatim>\<open>caveLoad(caveId, difficultyId)\<close> itself, on the globals \<^verbatim>\<open>cave\<close> and \<^verbatim>\<open>currentSeed\<close>.
  The table of caves is the constant \<^verbatim>\<open>rawCaveDatas\<close> of \<^verbatim>\<open>caveLoad\<close>; here it is the
  parameter \<open>datas\<close>, so that the decoder is defined for every table, and the program is
  \<open>caveLoad rawCaveDatas\<close>. An exception leaves the function at once, and nothing
  catches it: the grid it leaves behind is never read.
\<close>

definition caveDecode :: "nat list \<Rightarrow> int \<Rightarrow> grid \<Rightarrow> error + nat option \<times> grid" where
  "caveDecode hex difficultyId cave =
     (let (seed, cave1) = fillPass hex (setSeed (rdi hex (0x04 + difficultyId - 1)), cave)
      in case caveInstr hex 0x20 cave1 of
           Inl e \<Rightarrow> Inl e
         | Inr cave2 \<Rightarrow> Inr (seed, cave2))"

definition caveLoad :: "nat list list \<Rightarrow> int \<Rightarrow> int \<Rightarrow> grid \<Rightarrow> error + nat option \<times> grid" where
  "caveLoad datas caveId difficultyId cave =
     (case rdi datas (caveId - 1) of
        None \<Rightarrow> Inl TypeError
      | Some hex \<Rightarrow> caveDecode hex difficultyId cave)"


subsection \<open>Sprites\<close>

record sprite =
  name :: string
  col :: int
  row :: int
  direction :: nat
  gid :: nat
  animated :: bool
  rounded :: bool
  fallable :: bool
  explodable :: bool
  consumable :: bool
  animId :: nat
  animIdMax :: nat
  animCycle :: nat
  isFalling :: bool

text \<open>The globals of the program that the engine reads or writes; \<open>console\<close> is what
  \<^verbatim>\<open>console.log\<close> has printed.\<close>

record world =
  cave :: grid
  currentSeed :: "nat option"
  caveId :: int
  difficultyId :: int
  sprites :: "sprite list"
  joypad :: nat
  console :: "logmsg list"

text \<open>The sprite that \<^verbatim>\<open>appendSprites(col, row, type)\<close> builds, and the push.\<close>

definition newSprite :: "int \<Rightarrow> int \<Rightarrow> otype \<Rightarrow> sprite" where
  "newSprite c r ty =
     (let s0 = \<lparr>name = tname ty, col = c, row = r, direction = 0, gid = tgid ty,
                animated = False, rounded = False, fallable = False, explodable = False,
                consumable = False, animId = 0, animIdMax = 0, animCycle = 0,
                isFalling = False\<rparr>;
          s1 = (if tname ty = ''diamond'' \<or> tname ty = ''firefly'' \<or> tname ty = ''butterfly''
                   \<or> tname ty = ''amoeba''
                then s0\<lparr>animated := True, animId := 0, animIdMax := 8\<rparr> else s0);
          s2 = (if tname ty = ''boulder'' \<or> tname ty = ''diamond''
                then s1\<lparr>fallable := True\<rparr> else s1);
          s3 = (if tname ty = ''brick'' \<or> tname ty = ''boulder'' \<or> tname ty = ''diamond''
                then s2\<lparr>rounded := True\<rparr> else s2);
          s4 = (if tname ty = ''firefly'' \<or> tname ty = ''butterfly''
                then s3\<lparr>explodable := True\<rparr> else s3);
          s5 = (if tname ty = ''dirt'' \<or> tname ty = ''brick'' \<or> tname ty = ''magic''
                   \<or> tname ty = ''firefly'' \<or> tname ty = ''boulder'' \<or> tname ty = ''diamond''
                   \<or> tname ty = ''butterfly'' \<or> tname ty = ''rockford'' \<or> tname ty = ''amoeba''
                then s4\<lparr>consumable := True\<rparr> else s4)
      in if tname ty = ''inbox''
         then s5\<lparr>animated := True, animId := 0, animIdMax := 2, animCycle := 5\<rparr> else s5)"

definition appendSprites :: "int \<Rightarrow> int \<Rightarrow> otype \<Rightarrow> sprite list \<Rightarrow> sprite list" where
  "appendSprites c r ty sps = sps @ [newSprite c r ty]"

text \<open>\<^verbatim>\<open>orderSprites\<close>: \<^verbatim>\<open>Array.prototype.sort\<close> is stable; the comparison is by row, then by
  column.\<close>

definition spriteLe :: "sprite \<Rightarrow> sprite \<Rightarrow> bool" where
  "spriteLe a b = (if row a \<noteq> row b then row a - row b \<le> 0 else col a - col b \<le> 0)"

fun insortSprite :: "sprite \<Rightarrow> sprite list \<Rightarrow> sprite list" where
  "insortSprite a [] = [a]"
| "insortSprite a (b # bs) = (if spriteLe a b then a # b # bs else b # insortSprite a bs)"

definition orderSprites :: "sprite list \<Rightarrow> sprite list" where
  "orderSprites sps = foldr insortSprite sps []"

text \<open>
  \<^verbatim>\<open>Array.prototype.find\<close> returns the first object that satisfies the test. The sprites
  are shared, mutable objects, so a sprite found is kept as its index in \<^verbatim>\<open>sprites\<close>.
\<close>

fun findIndex :: "('a \<Rightarrow> bool) \<Rightarrow> 'a list \<Rightarrow> nat option" where
  "findIndex P [] = None"
| "findIndex P (x # xs) = (if P x then Some 0 else map_option Suc (findIndex P xs))"

definition getSpriteAt :: "sprite list \<Rightarrow> int \<Rightarrow> int \<Rightarrow> nat option" where
  "getSpriteAt sps c r = findIndex (\<lambda>sprite. col sprite = c \<and> row sprite = r) sps"

text \<open>\<^verbatim>\<open>sprites.splice(i, 1)\<close>.\<close>

definition splice1 :: "nat \<Rightarrow> 'a list \<Rightarrow> 'a list" where
  "splice1 i xs = take i xs @ drop (Suc i) xs"

subsection \<open>Setup\<close>

definition world0 :: world where
  "world0 = \<lparr>cave = cave0, currentSeed = Some 0, caveId = 1, difficultyId = 1,
             sprites = [], joypad = 0, console = []\<rparr>"

text \<open>The body of the two loops of \<^verbatim>\<open>setup\<close>.\<close>

definition setupCell :: "int \<Rightarrow> int \<Rightarrow> world \<Rightarrow> world" where
  "setupCell r c w =
     (let code = cave w r c in
      if code = Some 0x00 then w
      else case typeCoded code of
             None \<Rightarrow> w\<lparr>console := console w @ [CannotFindObject code]\<rparr>
           | Some ty \<Rightarrow> w\<lparr>sprites := appendSprites c r ty (sprites w)\<rparr>)"

definition expandSprites :: "world \<Rightarrow> world" where
  "expandSprites w =
     fold (\<lambda>r. fold (\<lambda>c. setupCell r c) [0..cols - 1]) [0..rows - 1] (w\<lparr>sprites := []\<rparr>)"

definition setupGame :: "nat list list \<Rightarrow> world \<Rightarrow> error + world" where
  "setupGame datas w =
     (case caveLoad datas (caveId w) (difficultyId w) (cave w) of
        Inl e \<Rightarrow> Inl e
      | Inr (seed, g) \<Rightarrow> Inr (expandSprites (w\<lparr>cave := g, currentSeed := seed\<rparr>)))"

subsection \<open>Keyboard state\<close>

definition JOYPAD_UP :: nat where "JOYPAD_UP = 1"
definition JOYPAD_RIGHT :: nat where "JOYPAD_RIGHT = 2"
definition JOYPAD_DOWN :: nat where "JOYPAD_DOWN = 4"
definition JOYPAD_LEFT :: nat where "JOYPAD_LEFT = 8"

definition isJoypadPressed :: "nat \<Rightarrow> nat \<Rightarrow> bool" where
  "isJoypadPressed jp m = (jp AND m \<noteq> 0)"

definition getDirectionFromJoypad :: "nat \<Rightarrow> nat" where
  "getDirectionFromJoypad jp =
     (if isJoypadPressed jp JOYPAD_UP then 1
      else if isJoypadPressed jp JOYPAD_RIGHT then 3
      else if isJoypadPressed jp JOYPAD_DOWN then 5
      else if isJoypadPressed jp JOYPAD_LEFT then 7
      else 0)"

subsection \<open>Update\<close>

text \<open>The first block of \<^verbatim>\<open>update\<close>: player input, or the inbox turning into Rockford.
  \<^verbatim>\<open>rockford.col\<close> throws when no sprite is named rockford.\<close>

definition updatePlayer :: "world \<Rightarrow> error + world" where
  "updatePlayer w =
     (case findIndex (\<lambda>sprite. name sprite = ''inbox'') (sprites w) of
        None \<Rightarrow>
          (let direction = getDirectionFromJoypad (joypad w) in
           if direction \<noteq> 0 then
             (case findIndex (\<lambda>sprite. name sprite = ''rockford'') (sprites w) of
                None \<Rightarrow> Inl TypeError
              | Some rockford \<Rightarrow>
                  (let (dx, dy) = getDXDYFromDirection (Some direction);
                       rk = sprites w ! rockford;
                       target = getSpriteAt (sprites w) (col rk + dx) (row rk + dy);
                       moved = (sprites w)[rockford := rk\<lparr>col := col rk + dx, row := row rk + dy\<rparr>]
                   in case target of
                        None \<Rightarrow> Inr (w\<lparr>sprites := moved\<rparr>)
                      | Some t \<Rightarrow>
                          if name (sprites w ! t) = ''dirt'' \<or> name (sprites w ! t) = ''diamond''
                          then Inr (w\<lparr>sprites := splice1 t moved\<rparr>)
                          else Inr w))
           else Inr w)
      | Some inbox \<Rightarrow>
          if animCycle (sprites w ! inbox) = 0 then
            (case typeNamed ''rockford'' of
               None \<Rightarrow> Inl TypeError
             | Some rockfordType \<Rightarrow>
                 Inr (w\<lparr>sprites := splice1 inbox
                                      (appendSprites (col (sprites w ! inbox))
                                         (row (sprites w ! inbox)) rockfordType (sprites w)),
                        console := console w @ [RockfordAppears (col (sprites w ! inbox))
                                                                  (row (sprites w ! inbox))]\<rparr>))
          else Inr w)"

text \<open>The body of the \<^verbatim>\<open>forEach\<close> over the fallable sprites, for the sprite at index \<open>i\<close>.\<close>

definition fallOne :: "nat \<Rightarrow> world \<Rightarrow> world" where
  "fallOne i w =
     (let sprite = sprites w ! i;
          c = col sprite;
          r = row sprite
      in case getSpriteAt (sprites w) c (r + 1) of
           None \<Rightarrow> w\<lparr>sprites := (sprites w)[i := sprite\<lparr>isFalling := True, row := r + 1\<rparr>]\<rparr>
         | Some below \<Rightarrow>
             if rounded (sprites w ! below) then
               (if getSpriteAt (sprites w) (c - 1) r = None
                   \<and> getSpriteAt (sprites w) (c - 1) (r + 1) = None
                then w\<lparr>sprites := (sprites w)[i := sprite\<lparr>col := c - 1\<rparr>]\<rparr>
                else if getSpriteAt (sprites w) (c + 1) r = None
                        \<and> getSpriteAt (sprites w) (c + 1) (r + 1) = None
                then w\<lparr>sprites := (sprites w)[i := sprite\<lparr>col := c + 1\<rparr>]\<rparr>
                else w\<lparr>sprites := (sprites w)[i := sprite\<lparr>isFalling := False\<rparr>]\<rparr>)
             else if explodable sprite then w\<lparr>console := console w @ [ExplodeAt c r]\<rparr>
             else w\<lparr>sprites := (sprites w)[i := sprite\<lparr>isFalling := False\<rparr>]\<rparr>)"

definition updateFalling :: "world \<Rightarrow> world" where
  "updateFalling w =
     fold fallOne (filter (\<lambda>i. fallable (sprites w ! i)) [0..<length (sprites w)]) w"

definition animOne :: "sprite \<Rightarrow> sprite" where
  "animOne sprite =
     (if animated sprite then
        (let s1 = sprite\<lparr>animId := animId sprite + 1\<rparr> in
         if animId s1 \<ge> animIdMax s1 then
           (let s2 = s1\<lparr>animId := 0\<rparr> in
            if animCycle s2 > 0 then
              (let s3 = s2\<lparr>animCycle := animCycle s2 - 1\<rparr> in
               if animCycle s3 = 0 then s3\<lparr>animated := False\<rparr> else s3)
            else s2)
         else s1)
      else sprite)"

definition update :: "world \<Rightarrow> error + world" where
  "update w =
     (case updatePlayer w of
        Inl e \<Rightarrow> Inl e
      | Inr w1 \<Rightarrow>
          (let w2 = w1\<lparr>sprites := orderSprites (sprites w1)\<rparr>;
               w3 = updateFalling w2
           in Inr (w3\<lparr>sprites := map animOne (sprites w3)\<rparr>)))"

text \<open>
  The entry point awaits \<^verbatim>\<open>setup()\<close> and then calls \<^verbatim>\<open>start()\<close>, whose loop calls
  \<^verbatim>\<open>update()\<close> at every tick: when \<^verbatim>\<open>setup\<close> throws, \<^verbatim>\<open>start\<close> is never called. The
  states at the tick boundaries, from the globals \<open>w0\<close> at the start: the state after
  \<^verbatim>\<open>setup\<close>, and the state after each \<^verbatim>\<open>update\<close> that returns; the key handlers change
  \<^verbatim>\<open>joypad\<close> between two ticks.
\<close>

inductive reachableFrom :: "nat list list \<Rightarrow> world \<Rightarrow> world \<Rightarrow> bool"
  for datas :: "nat list list" and w0 :: world where
  afterSetup: "setupGame datas w0 = Inr w \<Longrightarrow> reachableFrom datas w0 w"
| afterKey: "reachableFrom datas w0 w \<Longrightarrow> reachableFrom datas w0 (w\<lparr>joypad := jp\<rparr>)"
| afterUpdate: "reachableFrom datas w0 w \<Longrightarrow> update w = Inr w' \<Longrightarrow> reachableFrom datas w0 w'"

subsection \<open>The specification's words, for comparison with the code\<close>

text \<open>The recurrence of the generator, and the fill code of the first cumulative threshold
  that a draw \<open>v\<close> falls under (plain dirt when it falls under none).\<close>

definition lcgSpec :: "nat \<Rightarrow> nat" where
  "lcgSpec s = (1664525 * s + 1013904223) mod 2 ^ 32"

definition fillCodeSpec :: "nat list \<Rightarrow> nat \<Rightarrow> nat" where
  "fillCodeSpec hex v =
     (let T1 = hex ! 0x1C; T2 = hex ! 0x1D; T3 = hex ! 0x1E; T4 = hex ! 0x1F in
      if v < T1 then hex ! 0x18
      else if v < T1 + T2 then hex ! 0x19
      else if v < T1 + T2 + T3 then hex ! 0x1A
      else if v < T1 + T2 + T3 + T4 then hex ! 0x1B
      else 0x01)"

definition isBorder :: "int \<times> int \<Rightarrow> bool" where
  "isBorder p = (fst p = 0 \<or> fst p = rows - 1 \<or> snd p = 0 \<or> snd p = cols - 1)"

definition gridCells :: "(int \<times> int) list" where
  "gridCells = List.product [0..rows - 1] [0..cols - 1]"

definition interiorCells :: "(int \<times> int) list" where
  "interiorCells = filter (\<lambda>p. \<not> isBorder p) gridCells"


subsection \<open>The instruction pass as a sequence of writes\<close>

text \<open>The cells of the grid on its border.\<close>

definition borderCell :: "int \<Rightarrow> int \<Rightarrow> bool" where
  "borderCell r c = (0 \<le> r \<and> r < rows \<and> 0 \<le> c \<and> c < cols \<and> isBorder (r, c))"

text \<open>The writes of one instruction, in order, and its length in bytes.\<close>

definition instrLen :: "nat option \<Rightarrow> nat" where
  "instrLen b =
     (let id = drop_bit 6 (jsand b 0xC0) in
      if id = 0 then 3 else if id = 1 then 5 else if id = 2 then 6 else 5)"

definition instrWrites :: "nat list \<Rightarrow> nat \<Rightarrow> (int option \<times> int option \<times> nat option) list" where
  "instrWrites hex index =
     (let code = jsand (rd hex index) 0x3F;
          id = drop_bit 6 (jsand (rd hex index) 0xC0);
          col = map_option int (rd hex (index + 1));
          row = map_option (\<lambda>b. int b - 2) (rd hex (index + 2));
          len = rd hex (index + 3);
          hei = rd hex (index + 4);
          fil = rd hex (index + 5)
      in
      if id = 0 then [(row, col, Some code)]
      else if id = 1 then
        map (\<lambda>i. (map_option (\<lambda>r. r + snd (getDXDYFromDirection (jsadd (rd hex (index + 4)) (Some 1))) * int i) row,
                  map_option (\<lambda>x. x + fst (getDXDYFromDirection (jsadd (rd hex (index + 4)) (Some 1))) * int i) col,
                  Some code))
          [0..<bound len]
      else if id = 2 then
        concat (map (\<lambda>y. map (\<lambda>x.
                   (map_option (\<lambda>r. r + int y) row, map_option (\<lambda>k. k + int x) col,
                    if y = 0 \<or> int y = int (bound hei) - 1 \<or> x = 0 \<or> int x = int (bound len) - 1
                    then Some code else fil))
                 [0..<bound len]) [0..<bound hei])
      else
        concat (map (\<lambda>y. map (\<lambda>x.
                   (map_option (\<lambda>r. r + int y) row, map_option (\<lambda>k. k + int x) col, Some code))
                 [0..<bound len]) [0..<bound hei]))"

definition wr3 :: "int option \<times> int option \<times> nat option \<Rightarrow> grid \<Rightarrow> error + grid" where
  "wr3 t g = wr g (fst t) (fst (snd t)) (snd (snd t))"


text \<open>
  The indices at which the loop reads an opcode, from \<open>start\<close> on: the loop goes on from
  an opcode that is not the sentinel to the index after its instruction.
\<close>

inductive_set opcodePositions :: "nat list \<Rightarrow> nat \<Rightarrow> nat set" for hex :: "nat list" and start :: nat where
  first: "start \<in> opcodePositions hex start"
| step: "p \<in> opcodePositions hex start \<Longrightarrow> rd hex p \<noteq> Some 0xFF \<Longrightarrow>
         p + instrLen (rd hex p) \<in> opcodePositions hex start"

text \<open>The direction table of the specification, as pairs \<open>(dx, dy)\<close>: 0 is up, 1 up-right,
  2 right, 3 down-right, 4 down, 5 down-left, 6 left, 7 up-left; up is towards row 0.\<close>

definition directionTable :: "(int \<times> int) list" where
  "directionTable = [(0, -1), (1, -1), (1, 0), (1, 1), (0, 1), (-1, 1), (-1, 0), (-1, -1)]"

text \<open>A write is in order when its row is one of the grid's, and its cell and value satisfy \<open>P\<close>.\<close>

definition okWrite :: "(int \<Rightarrow> int \<Rightarrow> nat option \<Rightarrow> bool) \<Rightarrow> int option \<times> int option \<times> nat option \<Rightarrow> bool" where
  "okWrite P t =
     (case fst t of
        None \<Rightarrow> False
      | Some r \<Rightarrow> 0 \<le> r \<and> r < rows \<and> (case fst (snd t) of None \<Rightarrow> True | Some c \<Rightarrow> P r c (snd (snd t))))"

function checkInstr :: "(int \<Rightarrow> int \<Rightarrow> nat option \<Rightarrow> bool) \<Rightarrow> nat list \<Rightarrow> nat \<Rightarrow> bool" where
  "checkInstr P hex index =
     (if rd hex index = Some 0xFF then True
      else if index < length hex \<and> list_all (okWrite P) (instrWrites hex index)
      then checkInstr P hex (index + instrLen (rd hex index))
      else False)"
  by pat_completeness auto
termination
  by (relation "measure (\<lambda>(P, hex, index). length hex - index)") (auto simp: instrLen_def Let_def)

declare checkInstr.simps [simp del]

text \<open>
  A write touches the cell in row \<open>er\<close>, column \<open>ec\<close>. \<open>checkExit\<close> follows the loop as
  \<open>checkInstr\<close> does: every write that touches the cell writes 0x04, and \<open>seen\<close> says that
  one has.
\<close>

definition touches :: "int \<Rightarrow> int \<Rightarrow> int option \<times> int option \<times> nat option \<Rightarrow> bool" where
  "touches er ec t = (fst t = Some er \<and> fst (snd t) = Some ec)"

function checkExit :: "int \<Rightarrow> int \<Rightarrow> nat list \<Rightarrow> nat \<Rightarrow> bool \<Rightarrow> bool" where
  "checkExit er ec hex index seen =
     (if rd hex index = Some 0xFF then seen
      else if index < length hex
              \<and> list_all (\<lambda>t. touches er ec t \<longrightarrow> snd (snd t) = Some 0x04) (instrWrites hex index)
      then checkExit er ec hex (index + instrLen (rd hex index))
             (seen \<or> list_ex (touches er ec) (instrWrites hex index))
      else False)"
  by pat_completeness auto
termination
  by (relation "measure (\<lambda>(er, ec, hex, index, seen). length hex - index)")
     (auto simp: instrLen_def Let_def)

declare checkExit.simps [simp del]



subsection \<open>What the engine keeps\<close>

text \<open>The cell of a sprite, and a list of sprites with no two in one cell.\<close>

definition coord :: "sprite \<Rightarrow> int \<times> int" where
  "coord s = (col s, row s)"

definition exclusive :: "world \<Rightarrow> bool" where
  "exclusive w = distinct (map coord (sprites w))"

text \<open>The fields of a sprite that are set when it is made.\<close>

definition madeAs :: "sprite \<Rightarrow> string \<times> nat \<times> nat \<times> bool \<times> bool \<times> bool \<times> bool \<times> nat" where
  "madeAs s = (name s, direction s, gid s, rounded s, fallable s, explodable s, consumable s,
               animIdMax s)"

definition rockfordType :: otype where
  "rockfordType = \<lparr>tname = ''rockford'', tgid = 1, tcode = 0x38\<rparr>"

text \<open>A sprite of the new list is a sprite of the old list, moved, with its falling flag or
  its animation counters changed, or a Rockford just made.\<close>

definition keptOrNew :: "sprite list \<Rightarrow> sprite list \<Rightarrow> bool" where
  "keptOrNew old new =
     (\<forall>s' \<in> set new. (\<exists>s \<in> set old. madeAs s' = madeAs s)
                      \<or> (\<exists>c r. madeAs s' = madeAs (newSprite c r rockfordType)))"

text \<open>The globals other than the sprite list and the console.\<close>

definition sameGlobals :: "world \<Rightarrow> world \<Rightarrow> bool" where
  "sameGlobals w w' =
     (cave w' = cave w \<and> currentSeed w' = currentSeed w \<and> caveId w' = caveId w
      \<and> difficultyId w' = difficultyId w \<and> joypad w' = joypad w)"

text \<open>
  The two tests of the falling loop on the cells beside the sprite at index \<open>i\<close> and below
  them, and the world when the loop reaches that sprite: the sprites before it in the list
  have had their turn.
\<close>

definition leftClear :: "world \<Rightarrow> nat \<Rightarrow> bool" where
  "leftClear w i =
     (getSpriteAt (sprites w) (col (sprites w ! i) - 1) (row (sprites w ! i)) = None
      \<and> getSpriteAt (sprites w) (col (sprites w ! i) - 1) (row (sprites w ! i) + 1) = None)"

definition rightClear :: "world \<Rightarrow> nat \<Rightarrow> bool" where
  "rightClear w i =
     (getSpriteAt (sprites w) (col (sprites w ! i) + 1) (row (sprites w ! i)) = None
      \<and> getSpriteAt (sprites w) (col (sprites w ! i) + 1) (row (sprites w ! i) + 1) = None)"

definition atTurn :: "world \<Rightarrow> nat \<Rightarrow> world" where
  "atTurn w i = fold fallOne (filter (\<lambda>j. fallable (sprites w ! j)) [0..<i]) w"

text \<open>
  The cells \<open>(cave number, row, column)\<close> of the border where a cave's instructions put its
  exit; the writes that keep the border (steel, or the exit on its cell), and the grids whose
  border is so.
\<close>

definition exits :: "(int \<times> int \<times> int) list" where
  "exits = [(3, 18, 39), (5, 20, 39), (7, 5, 39), (8, 3, 0), (10, 20, 39), (12, 20, 39),
            (14, 18, 39), (16, 2, 39)]"

definition borderWrite :: "int \<Rightarrow> int \<Rightarrow> int \<Rightarrow> nat option \<Rightarrow> bool" where
  "borderWrite k r c v =
     (if borderCell r c then v = Some 0x07 \<or> (v = Some 0x04 \<and> (k, r, c) \<in> set exits) else True)"

definition borderOK :: "int \<Rightarrow> grid \<Rightarrow> bool" where
  "borderOK k g =
     (\<forall>r c. borderCell r c \<longrightarrow> g r c = Some 0x07 \<or> (g r c = Some 0x04 \<and> (k, r, c) \<in> set exits))"

text \<open>Three more rows of \<^verbatim>\<open>types\<close>, for the examples.\<close>

definition boulderType :: otype where
  "boulderType = \<lparr>tname = ''boulder'', tgid = 57, tcode = 0x10\<rparr>"
definition fireflyType :: otype where
  "fireflyType = \<lparr>tname = ''firefly'', tgid = 89, tcode = 0x08\<rparr>"
definition dirtType :: otype where
  "dirtType = \<lparr>tname = ''dirt'', tgid = 58, tcode = 0x01\<rparr>"


section \<open>Properties\<close>

subsection \<open>The generator\<close>

lemma lcg_below_2_53:
  assumes "s < (2::nat) ^ 32"
  shows "1664525 * s + 1013904223 < (2::nat) ^ 53"
proof -
  from assms have "s \<le> 4294967295" by simp
  then have "1664525 * s \<le> 1664525 * 4294967295" by (rule mult_le_mono2)
  then show ?thesis by simp
qed

lemma fl_exact: "n < 2 ^ 53 \<Longrightarrow> fl n = n"
  by (simp add: fl_def)

lemma lcgSpec_less: "lcgSpec s < 2 ^ 32"
  by (simp add: lcgSpec_def)

lemma nextRandom_exact:
  assumes "s < 2 ^ 32"
  shows "nextRandom (Some s) = (Some (lcgSpec s), Some (lcgSpec s))"
proof -
  have sum: "1664525 * s + 1013904223 < (2::nat) ^ 53"
    using assms by (rule lcg_below_2_53)
  then have prod: "1664525 * s < (2::nat) ^ 53" by simp
  have f1: "fl (1664525 * s) = 1664525 * s"
    using prod by (rule fl_exact)
  have f2: "fl (1664525 * s + 1013904223) = 1664525 * s + 1013904223"
    using sum by (rule fl_exact)
  show ?thesis
    by (simp add: nextRandom_def Let_def LCG_MULTIPLIER_def LCG_INCREMENT_def LCG_MODULUS_def
        f1 f2 lcgSpec_def)
qed

lemma randInt255_exact:
  assumes "s < 2 ^ 32"
  shows "randInt255 (Some s) = (Some (lcgSpec s mod 256), Some (lcgSpec s))"
  using nextRandom_exact [OF assms] by (simp add: randInt255_def)

text \<open>
  C8. For every 32-bit state \<open>s\<close>, \<^verbatim>\<open>nextRandom\<close> sets the state to
  \<open>(1664525 * s + 1013904223) mod 2 ^ 32\<close> and returns it: the product and the sum stay
  below \<open>2 ^ 53\<close>, so no double rounds. \<^verbatim>\<open>randInt255\<close> returns that state modulo 256,
  which is at most 255.
\<close>

theorem prng_contract:
  assumes "s < 2 ^ 32"
  shows "nextRandom (Some s)
           = (Some ((1664525 * s + 1013904223) mod 2 ^ 32),
              Some ((1664525 * s + 1013904223) mod 2 ^ 32))
       \<and> randInt255 (Some s)
           = (Some ((1664525 * s + 1013904223) mod 2 ^ 32 mod 256),
              Some ((1664525 * s + 1013904223) mod 2 ^ 32))
       \<and> (1664525 * s + 1013904223) mod 2 ^ 32 mod 256 \<le> 255
       \<and> fl (1664525 * s) = 1664525 * s
       \<and> fl (1664525 * s + 1013904223) = 1664525 * s + 1013904223"
proof -
  have sum: "1664525 * s + 1013904223 < (2::nat) ^ 53"
    using assms by (rule lcg_below_2_53)
  then have prod: "1664525 * s < (2::nat) ^ 53" by simp
  have f1: "fl (1664525 * s) = 1664525 * s"
    using prod by (rule fl_exact)
  have f2: "fl (1664525 * s + 1013904223) = 1664525 * s + 1013904223"
    using sum by (rule fl_exact)
  have b: "(1664525 * s + 1013904223) mod 2 ^ 32 mod 256 \<le> 255"
  proof -
    have "(1664525 * s + 1013904223) mod 2 ^ 32 mod 256 < 256" by simp
    then show ?thesis by linarith
  qed
  show ?thesis
    using nextRandom_exact [OF assms] randInt255_exact [OF assms] b f1 f2
    by (simp add: lcgSpec_def)
qed

theorem prng_contract_witness:
  "(4294967295::nat) < 2 ^ 32
   \<and> nextRandom (Some 4294967295) = (Some 1012239698, Some 1012239698)
   \<and> randInt255 (Some 4294967295) = (Some 82, Some 1012239698)"
  using prng_contract [of 4294967295] by simp


subsection \<open>The random fill pass\<close>

lemma steel_code: "map_option tcode (typeNamed ''steel'') = Some 7"
  by (simp add: typeNamed_def types_def)

lemma dirt_code: "map_option tcode (typeNamed ''dirt'') = Some 1"
  by (simp add: typeNamed_def types_def)

lemma put_put: "put (put g r c a) r c b = put g r c b"
  by (simp add: put_def)

lemma fillCell_border:
  assumes "isBorder (r, c)"
  shows "fillCell hex r c (sd, g) = (sd, put g r c (Some 7))"
  using assms by (simp add: fillCell_def isBorder_def steel_code)

lemma fillCell_interior:
  assumes len: "0x20 \<le> length hex" and s: "s < 2 ^ 32" and int: "\<not> isBorder (r, c)"
  shows "fillCell hex r c (Some s, g)
           = (Some (lcgSpec s), put g r c (Some (fillCodeSpec hex (lcgSpec s mod 256))))"
proof -
  have rds: "rd hex 0x18 = Some (hex ! 0x18)" "rd hex 0x19 = Some (hex ! 0x19)"
    "rd hex 0x1A = Some (hex ! 0x1A)" "rd hex 0x1B = Some (hex ! 0x1B)"
    "rd hex 0x1C = Some (hex ! 0x1C)" "rd hex 0x1D = Some (hex ! 0x1D)"
    "rd hex 0x1E = Some (hex ! 0x1E)" "rd hex 0x1F = Some (hex ! 0x1F)"
    using len by (simp_all add: rd_def)
  show ?thesis
    using int
    by (simp add: fillCell_def isBorder_def dirt_code randInt255_exact [OF s] rds jsadd_def
        jslt_def put_put fillCodeSpec_def Let_def)
qed

lemma fold_fold_product:
  "fold (\<lambda>r. fold (\<lambda>c. f r c) cs) rs st = fold (\<lambda>p. f (fst p) (snd p)) (List.product rs cs) st"
  by (induction rs arbitrary: st) (simp_all add: fold_map comp_def)

lemma fillPass_cells:
  "fillPass hex st = fold (\<lambda>p. fillCell hex (fst p) (snd p)) gridCells st"
  by (simp add: fillPass_def gridCells_def fold_fold_product)

lemma distinct_gridCells: "distinct gridCells"
  by (simp add: gridCells_def distinct_product)

lemma fill_cells:
  assumes len: "0x20 \<le> length hex"
  shows "distinct ps \<Longrightarrow> s < 2 ^ 32 \<Longrightarrow>
     \<exists>g'. fold (\<lambda>p. fillCell hex (fst p) (snd p)) ps (Some s, g)
            = (Some ((lcgSpec ^^ length (filter (\<lambda>p. \<not> isBorder p) ps)) s), g')
        \<and> (\<forall>k < length (filter (\<lambda>p. \<not> isBorder p) ps).
              g' (fst (filter (\<lambda>p. \<not> isBorder p) ps ! k)) (snd (filter (\<lambda>p. \<not> isBorder p) ps ! k))
                = Some (fillCodeSpec hex ((lcgSpec ^^ Suc k) s mod 256)))
        \<and> (\<forall>p \<in> set ps. isBorder p \<longrightarrow> g' (fst p) (snd p) = Some 7)
        \<and> (\<forall>r c. (r, c) \<notin> set ps \<longrightarrow> g' r c = g r c)"
proof (induction ps arbitrary: s g)
  case Nil
  then show ?case by simp
next
  case (Cons p ps)
  obtain r c where p: "p = (r, c)" by (cases p)
  from Cons.prems have d: "distinct ps" and notin: "(r, c) \<notin> set ps"
    by (simp_all add: p)
  show ?case
  proof (cases "isBorder p")
    case True
    from Cons.IH [OF d Cons.prems(2), of "put g r c (Some 7)"]
    obtain g' where
      f: "fold (\<lambda>p. fillCell hex (fst p) (snd p)) ps (Some s, put g r c (Some 7))
            = (Some ((lcgSpec ^^ length (filter (\<lambda>p. \<not> isBorder p) ps)) s), g')"
      and a: "\<forall>k < length (filter (\<lambda>p. \<not> isBorder p) ps).
              g' (fst (filter (\<lambda>p. \<not> isBorder p) ps ! k)) (snd (filter (\<lambda>p. \<not> isBorder p) ps ! k))
                = Some (fillCodeSpec hex ((lcgSpec ^^ Suc k) s mod 256))"
      and b: "\<forall>p \<in> set ps. isBorder p \<longrightarrow> g' (fst p) (snd p) = Some 7"
      and c: "\<forall>r' c'. (r', c') \<notin> set ps \<longrightarrow> g' r' c' = put g r c (Some 7) r' c'"
      by blast
    have here: "g' r c = Some 7"
      using c notin by (simp add: put_def)
    have else: "\<forall>r' c'. (r', c') \<notin> set (p # ps) \<longrightarrow> g' r' c' = g r' c'"
      using c by (auto simp: p put_def)
    show ?thesis
      using True f a b here else fillCell_border [of r c hex "Some s" g]
      by (simp add: p)
  next
    case False
    have s1: "lcgSpec s < 2 ^ 32" by (rule lcgSpec_less)
    let ?v = "Some (fillCodeSpec hex (lcgSpec s mod 256))"
    from Cons.IH [OF d s1, of "put g r c ?v"]
    obtain g' where
      f: "fold (\<lambda>p. fillCell hex (fst p) (snd p)) ps (Some (lcgSpec s), put g r c ?v)
            = (Some ((lcgSpec ^^ length (filter (\<lambda>p. \<not> isBorder p) ps)) (lcgSpec s)), g')"
      and a: "\<forall>k < length (filter (\<lambda>p. \<not> isBorder p) ps).
              g' (fst (filter (\<lambda>p. \<not> isBorder p) ps ! k)) (snd (filter (\<lambda>p. \<not> isBorder p) ps ! k))
                = Some (fillCodeSpec hex ((lcgSpec ^^ Suc k) (lcgSpec s) mod 256))"
      and b: "\<forall>p \<in> set ps. isBorder p \<longrightarrow> g' (fst p) (snd p) = Some 7"
      and c: "\<forall>r' c'. (r', c') \<notin> set ps \<longrightarrow> g' r' c' = put g r c ?v r' c'"
      by blast
    have here: "g' r c = ?v"
      using c notin by (simp add: put_def)
    have else: "\<forall>r' c'. (r', c') \<notin> set (p # ps) \<longrightarrow> g' r' c' = g r' c'"
      using c by (auto simp: p put_def)
    have step: "fillCell hex r c (Some s, g) = (Some (lcgSpec s), put g r c ?v)"
      using len Cons.prems(2) False by (simp add: fillCell_interior p)
    have a': "\<forall>k < length (filter (\<lambda>p. \<not> isBorder p) (p # ps)).
              g' (fst (filter (\<lambda>p. \<not> isBorder p) (p # ps) ! k))
                 (snd (filter (\<lambda>p. \<not> isBorder p) (p # ps) ! k))
                = Some (fillCodeSpec hex ((lcgSpec ^^ Suc k) s mod 256))"
    proof (intro allI impI)
      fix k assume k: "k < length (filter (\<lambda>p. \<not> isBorder p) (p # ps))"
      show "g' (fst (filter (\<lambda>p. \<not> isBorder p) (p # ps) ! k))
                 (snd (filter (\<lambda>p. \<not> isBorder p) (p # ps) ! k))
                = Some (fillCodeSpec hex ((lcgSpec ^^ Suc k) s mod 256))"
      proof (cases k)
        case 0
        then show ?thesis using False here by (simp add: p)
      next
        case (Suc j)
        with k False have "j < length (filter (\<lambda>p. \<not> isBorder p) ps)" by simp
        with a have "g' (fst (filter (\<lambda>p. \<not> isBorder p) ps ! j)) (snd (filter (\<lambda>p. \<not> isBorder p) ps ! j))
                = Some (fillCodeSpec hex ((lcgSpec ^^ Suc j) (lcgSpec s) mod 256))"
          by blast
        then show ?thesis using False Suc by (simp add: funpow_swap1)
      qed
    qed
    have b': "\<forall>q \<in> set (p # ps). isBorder q \<longrightarrow> g' (fst q) (snd q) = Some 7"
      using b False by auto
    have f': "fold (\<lambda>p. fillCell hex (fst p) (snd p)) (p # ps) (Some s, g)
            = (Some ((lcgSpec ^^ length (filter (\<lambda>p. \<not> isBorder p) (p # ps))) s), g')"
      using f step False by (simp add: p funpow_swap1)
    show ?thesis
      using f' a' b' else by blast
  qed
qed

lemma filter_product:
  "filter (\<lambda>p. P (fst p) \<and> Q (snd p)) (List.product xs ys)
     = List.product (filter P xs) (filter Q ys)"
  by (induction xs) (simp_all add: filter_map comp_def)

lemma interior_rows: "filter (\<lambda>r. r \<noteq> 0 \<and> r \<noteq> rows - 1) [0..rows - 1] = [1..20]"
  by (simp add: rows_def upto_rec1)

lemma interior_cols: "filter (\<lambda>c. c \<noteq> 0 \<and> c \<noteq> cols - 1) [0..cols - 1] = [1..38]"
  by (simp add: cols_def upto_rec1)

lemma interiorCells_product: "interiorCells = List.product [1..20] [1..38]"
proof -
  have "interiorCells
          = filter (\<lambda>p. (fst p \<noteq> 0 \<and> fst p \<noteq> rows - 1) \<and> (snd p \<noteq> 0 \<and> snd p \<noteq> cols - 1))
              (List.product [0..rows - 1] [0..cols - 1])"
    by (simp add: interiorCells_def gridCells_def isBorder_def conj_ac)
  also have "\<dots> = List.product [1..20] [1..38]"
    using filter_product [of "\<lambda>r. r \<noteq> 0 \<and> r \<noteq> rows - 1" "\<lambda>c. c \<noteq> 0 \<and> c \<noteq> cols - 1"
        "[0..rows - 1]" "[0..cols - 1]"]
    unfolding interior_rows interior_cols .
  finally show ?thesis .
qed

lemma length_interiorCells: "length interiorCells = 760"
  by (simp add: interiorCells_product)

lemma interiorCells_nth:
  assumes "0 < r" "r < rows - 1" "0 < c" "c < cols - 1"
  shows "interiorCells ! (38 * nat (r - 1) + nat (c - 1)) = (r, c)"
proof -
  let ?k = "38 * nat (r - 1) + nat (c - 1)"
  have c38: "nat (c - 1) < 38" using assms by (simp add: cols_def)
  have r20: "nat (r - 1) < 20" using assms by (simp add: rows_def)
  have kd: "?k div 38 = nat (r - 1)" using c38 by simp
  have km: "?k mod 38 = nat (c - 1)" using c38 by simp
  have k: "?k < length [1..20::int] * length [1..38::int]" using c38 r20 by simp
  have "interiorCells ! ?k = ([1..20] ! (?k div length [1..38::int]), [1..38] ! (?k mod length [1..38::int]))"
    unfolding interiorCells_product using k by (rule product_nth)
  also have "\<dots> = ([1..20] ! nat (r - 1), [1..38] ! nat (c - 1))"
    using kd km by simp
  also have "\<dots> = (r, c)"
    using assms c38 r20 by (simp add: rows_def cols_def)
  finally show ?thesis .
qed


text \<open>
  C1. With a complete header and a 32-bit seed \<open>s\<close>, the fill pass draws 760 bytes, one for
  each interior cell in row order: the cell in row \<open>r\<close>, column \<open>c\<close> (1 to 20, 1 to 38) gets
  draw number \<open>38 * (r - 1) + c\<close>, and holds the fill code of the first cumulative threshold
  that draw falls under, or plain dirt (1) when it falls under none.
\<close>

theorem random_fill_pass:
  assumes len: "0x20 \<le> length hex" and s: "s < 2 ^ 32"
  shows "\<exists>g'. fillPass hex (Some s, g) = (Some ((lcgSpec ^^ 760) s), g')
           \<and> (\<forall>r c. 0 < r \<and> r < rows - 1 \<and> 0 < c \<and> c < cols - 1 \<longrightarrow>
                 g' r c = Some (fillCodeSpec hex ((lcgSpec ^^ (38 * nat (r - 1) + nat c)) s mod 256)))"
proof -
  from fill_cells [OF len distinct_gridCells s, of g]
  obtain g' where
    f: "fold (\<lambda>p. fillCell hex (fst p) (snd p)) gridCells (Some s, g)
          = (Some ((lcgSpec ^^ length interiorCells) s), g')"
    and a: "\<forall>k < length interiorCells.
              g' (fst (interiorCells ! k)) (snd (interiorCells ! k))
                = Some (fillCodeSpec hex ((lcgSpec ^^ Suc k) s mod 256))"
    unfolding interiorCells_def by blast
  have "g' r c = Some (fillCodeSpec hex ((lcgSpec ^^ (38 * nat (r - 1) + nat c)) s mod 256))"
    if rc: "0 < r" "r < rows - 1" "0 < c" "c < cols - 1" for r c
  proof -
    let ?k = "38 * nat (r - 1) + nat (c - 1)"
    have "?k < length interiorCells"
      using rc by (simp add: length_interiorCells rows_def cols_def)
    with a have "g' (fst (interiorCells ! ?k)) (snd (interiorCells ! ?k))
                = Some (fillCodeSpec hex ((lcgSpec ^^ Suc ?k) s mod 256))"
      by blast
    moreover have "Suc ?k = 38 * nat (r - 1) + nat c" using rc by simp
    ultimately show ?thesis
      using interiorCells_nth [OF rc] by simp
  qed
  then show ?thesis
    using f by (simp add: fillPass_cells length_interiorCells)
qed


theorem random_fill_pass_witness:
  "0x20 \<le> length (rawCaveDatas ! 0) \<and> (10::nat) < 2 ^ 32
   \<and> (\<exists>g'. fillPass (rawCaveDatas ! 0) (Some 10, cave0) = (Some ((lcgSpec ^^ 760) 10), g')
           \<and> g' 1 1 = Some 1 \<and> g' 1 7 = Some 0)"
proof -
  have len: "0x20 \<le> length (rawCaveDatas ! 0)" by (simp add: rawCaveDatas_def)
  have s: "(10::nat) < 2 ^ 32" by simp
  from random_fill_pass [OF len s, of cave0]
  obtain g' where f: "fillPass (rawCaveDatas ! 0) (Some 10, cave0) = (Some ((lcgSpec ^^ 760) 10), g')"
    and a: "\<forall>r c. 0 < r \<and> r < rows - 1 \<and> 0 < c \<and> c < cols - 1 \<longrightarrow>
              g' r c = Some (fillCodeSpec (rawCaveDatas ! 0)
                               ((lcgSpec ^^ (38 * nat (r - 1) + nat c)) 10 mod 256))"
    by blast
  from a have "g' 1 1 = Some (fillCodeSpec (rawCaveDatas ! 0)
                               ((lcgSpec ^^ (38 * nat (1 - 1) + nat 1)) 10 mod 256))"
    by (simp add: rows_def cols_def)
  then have c11: "g' 1 1 = Some 1"
    by (simp add: fillCodeSpec_def lcgSpec_def rawCaveDatas_def)
  from a have "g' 1 7 = Some (fillCodeSpec (rawCaveDatas ! 0)
                               ((lcgSpec ^^ (38 * nat (1 - 1) + nat 7)) 10 mod 256))"
    by (simp add: rows_def cols_def)
  moreover have "(lcgSpec ^^ 7) 10 = 2809322015"
  proof -
    have seven: "(7::nat) = Suc (Suc (Suc (Suc (Suc (Suc (Suc 0))))))" by simp
    have "(lcgSpec ^^ 7) 10 = lcgSpec (lcgSpec (lcgSpec (lcgSpec (lcgSpec (lcgSpec (lcgSpec 10))))))"
      unfolding seven by simp
    also have "\<dots> = 2809322015" by (simp add: lcgSpec_def)
    finally show ?thesis .
  qed
  ultimately have c17: "g' 1 7 = Some 0"
    by (simp add: fillCodeSpec_def rawCaveDatas_def)
  from f c11 c17 len s show ?thesis by blast
qed


subsection \<open>The instruction pass\<close>

lemma wr3_tuple: "wr3 (r, c, v) = (\<lambda>g. wr g r c v)"
  by (simp add: wr3_def fun_eq_iff)

lemma wr_if: "(if b then wr g r c v else wr g r c v') = wr g r c (if b then v else v')"
  by simp

lemma foldE_append:
  "foldE f (xs @ ys) s = (case foldE f xs s of Inl e \<Rightarrow> Inl e | Inr s' \<Rightarrow> foldE f ys s')"
  by (induction xs arbitrary: s) (simp_all split: sum.splits)

lemma foldE_map: "foldE f (map h xs) = foldE (\<lambda>x. f (h x)) xs"
proof
  fix s show "foldE f (map h xs) s = foldE (\<lambda>x. f (h x)) xs s"
    by (induction xs arbitrary: s) (simp_all split: sum.splits)
qed

lemma foldE_concat_map:
  "foldE f (concat (map h ys)) = foldE (\<lambda>y. foldE f (h y)) ys"
proof
  fix s show "foldE f (concat (map h ys)) s = foldE (\<lambda>y. foldE f (h y)) ys s"
    by (induction ys arbitrary: s) (simp_all add: foldE_append split: sum.splits)
qed

lemma instrStep_writes:
  "instrStep hex index g0 =
     (case foldE wr3 (instrWrites hex index) g0 of
        Inl e \<Rightarrow> Inl e
      | Inr g \<Rightarrow> Inr (index + instrLen (rd hex index), g))"
proof -
  have k: "drop_bit 6 (jsand (rd hex index) 0xC0) \<le> (3::nat)" by (rule kind_le_3)
  consider "drop_bit 6 (jsand (rd hex index) 0xC0) = (0::nat)"
    | "drop_bit 6 (jsand (rd hex index) 0xC0) = (1::nat)"
    | "drop_bit 6 (jsand (rd hex index) 0xC0) = (2::nat)"
    | "drop_bit 6 (jsand (rd hex index) 0xC0) = (3::nat)"
    using k by linarith
  then show ?thesis
  proof cases
    case 1
    then show ?thesis
      by (simp add: instrStep_def instrWrites_def instrLen_def wr3_tuple Let_def split: sum.splits)
  next
    case 2
    then show ?thesis
      by (simp add: instrStep_def instrWrites_def instrLen_def wr3_tuple Let_def foldE_map
          split_beta split: sum.splits)
  next
    case 3
    then show ?thesis
      by (simp add: instrStep_def instrWrites_def instrLen_def wr3_tuple Let_def foldE_map
          foldE_concat_map wr_if split: sum.splits)
  next
    case 4
    then show ?thesis
      by (simp add: instrStep_def instrWrites_def instrLen_def wr3_tuple Let_def foldE_map
          foldE_concat_map split: sum.splits)
  qed
qed

lemma foldE_ok:
  assumes pres: "\<And>g r c v. Inv g \<Longrightarrow> 0 \<le> r \<Longrightarrow> r < rows \<Longrightarrow> P r c v \<Longrightarrow> Inv (put g r c v)"
  shows "list_all (okWrite P) ws \<Longrightarrow> Inv g \<Longrightarrow> \<exists>g'. foldE wr3 ws g = Inr g' \<and> Inv g'"
proof (induction ws arbitrary: g)
  case Nil
  then show ?case by simp
next
  case (Cons t ws)
  obtain r c v where t: "t = (r, c, v)" by (cases t)
  from Cons.prems(1) have okt: "okWrite P (r, c, v)" and rest: "list_all (okWrite P) ws"
    by (simp_all add: t)
  from okt obtain r' where r: "r = Some r'" "0 \<le> r'" "r' < rows"
    and c: "\<And>c'. c = Some c' \<Longrightarrow> P r' c' v"
    by (auto simp: okWrite_def split: option.splits)
  show ?case
  proof (cases c)
    case None
    then have "wr3 t g = Inr g" using r by (simp add: t wr3_tuple wr_def)
    then show ?thesis using Cons.IH [OF rest Cons.prems(2)] by simp
  next
    case (Some c')
    then have w: "wr3 t g = Inr (put g r' c' v)" using r by (simp add: t wr3_tuple wr_def)
    have "Inv (put g r' c' v)" using pres Cons.prems(2) r c [OF Some] by blast
    then show ?thesis using Cons.IH [OF rest] w by simp
  qed
qed

lemma checkInstr_sound:
  "checkInstr P hex index \<Longrightarrow> Inv g \<Longrightarrow>
   (\<And>g r c v. Inv g \<Longrightarrow> 0 \<le> r \<Longrightarrow> r < rows \<Longrightarrow> P r c v \<Longrightarrow> Inv (put g r c v)) \<Longrightarrow>
   \<exists>g'. caveInstr hex index g = Inr g' \<and> Inv g'"
proof (induction P hex index arbitrary: g rule: checkInstr.induct)
  case (1 P hex index)
  note pres = "1.prems"(3)
  show ?case
  proof (cases "rd hex index = Some 0xFF")
    case True
    then show ?thesis using "1.prems"(2) by (simp add: caveInstr.simps)
  next
    case False
    with "1.prems"(1) have ok: "index < length hex \<and> list_all (okWrite P) (instrWrites hex index)"
      and nxt: "checkInstr P hex (index + instrLen (rd hex index))"
      by (simp_all add: checkInstr.simps [of P hex index] split: if_splits)
    from ok have ws: "list_all (okWrite P) (instrWrites hex index)" by simp
    from foldE_ok [where Inv = Inv and P = P, OF pres ws "1.prems"(2)]
    obtain g1 where g1: "foldE wr3 (instrWrites hex index) g = Inr g1" and i1: "Inv g1"
      by blast
    from "1.IH" [OF False ok nxt i1 pres]
    obtain g' where "caveInstr hex (index + instrLen (rd hex index)) g1 = Inr g'" and "Inv g'"
      by blast
    then show ?thesis
      using False g1 by (simp add: caveInstr.simps [of hex index] instrStep_writes)
  qed
qed

lemma opcodePositions_trans:
  assumes "q \<in> opcodePositions hex s"
  shows "p \<in> opcodePositions hex q \<Longrightarrow> p \<in> opcodePositions hex s"
proof (induction rule: opcodePositions.induct)
  case first
  show ?case by (rule assms)
next
  case (step p)
  then show ?case by (simp add: opcodePositions.step)
qed

lemma instrStep_index:
  assumes "instrStep hex index g = Inr (index', g')"
  shows "index' = index + instrLen (rd hex index)"
  using assms by (simp add: instrStep_writes split: sum.splits)

lemma caveInstr_sentinel:
  "caveInstr hex index g = Inr g' \<Longrightarrow> \<exists>p \<in> opcodePositions hex index. rd hex p = Some 0xFF"
proof (induction hex index g rule: caveInstr.induct)
  case (1 hex index g)
  show ?case
  proof (cases "rd hex index = Some 0xFF")
    case True
    then show ?thesis using opcodePositions.first by blast
  next
    case False
    with "1.prems" obtain index' g1 where
      st: "instrStep hex index g = Inr (index', g1)" and rest: "caveInstr hex index' g1 = Inr g'"
      by (auto simp: caveInstr.simps [of hex index g] split: sum.splits)
    from "1.IH" [OF False st refl rest]
    obtain p where p: "p \<in> opcodePositions hex index'" "rd hex p = Some 0xFF" by blast
    have "index' \<in> opcodePositions hex index"
      using instrStep_index [OF st] opcodePositions.step [OF opcodePositions.first False] by simp
    then have "p \<in> opcodePositions hex index" using p(1) by (rule opcodePositions_trans)
    with p(2) show ?thesis by blast
  qed
qed

lemma caveInstr_total: "caveInstr hex index g = Inl TypeError \<or> (\<exists>g'. caveInstr hex index g = Inr g')"
  by (cases "caveInstr hex index g") (auto intro: error.exhaust)


lemma rd_in_set: "rd xs i = Some x \<Longrightarrow> x \<in> set xs"
  by (auto simp: rd_def split: if_splits)

lemma reachableFrom_setup:
  "reachableFrom datas w0 w \<Longrightarrow> \<exists>w1. setupGame datas w0 = Inr w1"
  by (induction rule: reachableFrom.induct) auto

text \<open>
  C2. When the loop of the decoder never reads the sentinel 0xFF as an opcode, it runs past
  the end of the bytes, and \<^verbatim>\<open>caveLoad\<close> ends with an exception (the \<^verbatim>\<open>TypeError\<close> of a
  write to a row that is not there); \<^verbatim>\<open>setup\<close> ends with it too, and no tick follows.
\<close>

theorem malformed_cave_data:
  assumes hex: "rdi datas (caveId w - 1) = Some hex"
    and nosent: "\<not> (\<exists>p \<in> opcodePositions hex 0x20. rd hex p = Some 0xFF)"
  shows "caveLoad datas (caveId w) (difficultyId w) (cave w) = Inl TypeError
         \<and> setupGame datas w = Inl TypeError
         \<and> (\<forall>w'. \<not> reachableFrom datas w w')"
proof -
  have instr: "caveInstr hex 0x20 g = Inl TypeError" for g
    using caveInstr_total [of hex "0x20" g] caveInstr_sentinel [of hex "0x20" g] nosent
    by blast
  have load: "caveLoad datas (caveId w) (difficultyId w) (cave w) = Inl TypeError"
    by (simp add: caveLoad_def hex caveDecode_def instr split: prod.splits)
  then have su: "setupGame datas w = Inl TypeError"
    by (simp add: setupGame_def)
  then have "\<not> reachableFrom datas w w'" for w'
    using reachableFrom_setup [of datas w w'] by auto
  with load su show ?thesis by blast
qed

theorem malformed_cave_data_witness:
  "rdi [replicate 0x20 0 @ [0x25, 0x03, 0x04::nat]] (caveId world0 - 1)
     = Some (replicate 0x20 0 @ [0x25, 0x03, 0x04::nat])
   \<and> \<not> (\<exists>p \<in> opcodePositions (replicate 0x20 0 @ [0x25, 0x03, 0x04::nat]) 0x20.
            rd (replicate 0x20 0 @ [0x25, 0x03, 0x04::nat]) p = Some 0xFF)
   \<and> caveLoad [replicate 0x20 0 @ [0x25, 0x03, 0x04::nat]] 1 1 cave0 = Inl TypeError
   \<and> setupGame [replicate 0x20 0 @ [0x25, 0x03, 0x04::nat]] world0 = Inl TypeError"
proof -
  let ?hex = "replicate 0x20 0 @ [0x25, 0x03, 0x04::nat]"
  have hex: "rdi [?hex] (caveId world0 - 1) = Some ?hex"
    by (simp add: rdi_def rd_def world0_def)
  have nosent: "\<not> (\<exists>p \<in> opcodePositions ?hex 0x20. rd ?hex p = Some 0xFF)"
  proof
    assume "\<exists>p \<in> opcodePositions ?hex 0x20. rd ?hex p = Some 0xFF"
    then obtain p where "rd ?hex p = Some 0xFF" by blast
    then have "(0xFF::nat) \<in> set ?hex" by (rule rd_in_set)
    then show False by simp
  qed
  from malformed_cave_data [OF hex nosent] hex nosent show ?thesis
    by (simp add: world0_def)
qed

subsection \<open>The line instruction\<close>

lemma foldE_line:
  assumes "\<forall>i<n. 0 \<le> R i \<and> R i < rows"
  shows "foldE wr3 (map (\<lambda>i. (Some (R i), Some (C i), v)) [0..<n]) g
           = Inr (\<lambda>r c. if \<exists>i<n. r = R i \<and> c = C i then v else g r c)"
  using assms
proof (induction n)
  case 0
  then show ?case by simp
next
  case (Suc n)
  then have ih: "foldE wr3 (map (\<lambda>i. (Some (R i), Some (C i), v)) [0..<n]) g
           = Inr (\<lambda>r c. if \<exists>i<n. r = R i \<and> c = C i then v else g r c)"
    and rn: "0 \<le> R n" "R n < rows"
    by simp_all
  have "put (\<lambda>r c. if \<exists>i<n. r = R i \<and> c = C i then v else g r c) (R n) (C n) v
          = (\<lambda>r c. if \<exists>i<Suc n. r = R i \<and> c = C i then v else g r c)"
    by (auto simp: put_def fun_eq_iff less_Suc_eq)
  then show ?case
    using ih rn by (simp add: foldE_append wr3_tuple wr_def)
qed


text \<open>
  C9. An instruction with opcode 0x42 and the bytes \<open>cb\<close>, \<open>rb\<close>, \<open>len\<close>, \<open>dir\<close> after it,
  \<open>dir\<close> from 0 to 7, whose line stays within the 22 rows, writes code 0x02 to the \<open>len\<close>
  cells from column \<open>cb\<close>, row \<open>rb - 2\<close> on in the direction of the table, changes no other
  cell, and moves the index on by 5.
\<close>

theorem line_instruction:
  assumes op: "rd hex index = Some 0x42"
    and cb: "rd hex (index + 1) = Some cb" and rb: "rd hex (index + 2) = Some rb"
    and len: "rd hex (index + 3) = Some len" and dir: "rd hex (index + 4) = Some dir"
    and d7: "dir \<le> 7" and tab: "directionTable ! dir = (dx, dy)"
    and inrows: "\<forall>i<len. 0 \<le> int rb - 2 + dy * int i \<and> int rb - 2 + dy * int i < rows"
  shows "instrStep hex index g
           = Inr (index + 5,
                  \<lambda>r c. if \<exists>i<len. r = int rb - 2 + dy * int i \<and> c = int cb + dx * int i
                         then Some 0x02 else g r c)
         \<and> card {(int rb - 2 + dy * int i, int cb + dx * int i) | i. i < len} = len"
proof -
  have code: "jsand (Some 0x42) 0x3F = 2" by (simp add: jsand_def)
  have kind: "drop_bit 6 (jsand (Some 0x42) 0xC0) = (1::nat)" by (simp add: jsand_def)
  from d7 have "dir = 0 \<or> dir = 1 \<or> dir = 2 \<or> dir = 3 \<or> dir = 4 \<or> dir = 5 \<or> dir = 6 \<or> dir = 7"
    by linarith
  then have disp: "getDXDYFromDirection (jsadd (Some dir) (Some 1)) = (dx, dy)" and nz: "dx \<noteq> 0 \<or> dy \<noteq> 0"
    using tab by (auto simp: getDXDYFromDirection_def jsadd_def directionTable_def)
  have ws: "instrWrites hex index
              = map (\<lambda>i. (Some (int rb - 2 + dy * int i), Some (int cb + dx * int i), Some 2)) [0..<len]"
    using op cb rb len dir code kind disp by (simp add: instrWrites_def bound_def Let_def)
  have il: "instrLen (rd hex index) = 5" by (simp add: instrLen_def op kind)
  have step: "instrStep hex index g
           = Inr (index + 5,
                  \<lambda>r c. if \<exists>i<len. r = int rb - 2 + dy * int i \<and> c = int cb + dx * int i
                         then Some 0x02 else g r c)"
    unfolding instrStep_writes ws il using foldE_line [OF inrows] by simp
  have "inj_on (\<lambda>i. (int rb - 2 + dy * int i, int cb + dx * int i)) {..<len}"
    using nz by (auto simp: inj_on_def)
  then have "card ((\<lambda>i. (int rb - 2 + dy * int i, int cb + dx * int i)) ` {..<len}) = len"
    by (simp add: card_image)
  moreover have "(\<lambda>i. (int rb - 2 + dy * int i, int cb + dx * int i)) ` {..<len}
                   = {(int rb - 2 + dy * int i, int cb + dx * int i) | i. i < len}"
    by auto
  ultimately show ?thesis using step by simp
qed


theorem line_instruction_witness:
  "instrStep (rawCaveDatas ! 0) 0x20 cave0
     = Inr (0x25, \<lambda>r c. if \<exists>i<30. r = 7 \<and> c = 1 + int i then Some 0x02 else cave0 r c)
   \<and> card {(7::int, 1 + int i) | i. i < 30} = 30"
proof -
  have b: "rd (rawCaveDatas ! 0) 0x20 = Some 0x42" "rd (rawCaveDatas ! 0) (0x20 + 1) = Some 1"
    "rd (rawCaveDatas ! 0) (0x20 + 2) = Some 9" "rd (rawCaveDatas ! 0) (0x20 + 3) = Some 30"
    "rd (rawCaveDatas ! 0) (0x20 + 4) = Some 2"
    by (simp_all add: rd_def rawCaveDatas_def)
  have t: "directionTable ! 2 = (1, 0)" by (simp add: directionTable_def)
  have r: "\<forall>i<30. 0 \<le> int 9 - 2 + 0 * int i \<and> int 9 - 2 + 0 * int i < rows"
    by (simp add: rows_def)
  from line_instruction [OF b _ t r, of cave0] show ?thesis by simp
qed


subsection \<open>The border\<close>

lemma fillCell_other:
  "(r', c') \<noteq> (r, c) \<Longrightarrow> snd (fillCell hex r c st) r' c' = snd st r' c'"
  by (cases st) (auto simp: fillCell_def Let_def put_def split: prod.splits)

lemma fillCell_steel: "isBorder (r, c) \<Longrightarrow> snd (fillCell hex r c st) r c = Some 7"
  by (cases st) (simp add: fillCell_def isBorder_def steel_code put_def)

lemma fill_untouched:
  "(r, c) \<notin> set ps \<Longrightarrow> snd (fold (\<lambda>p. fillCell hex (fst p) (snd p)) ps st) r c = snd st r c"
proof (induction ps arbitrary: st)
  case Nil
  show ?case by simp
next
  case (Cons p ps)
  then have "(r, c) \<noteq> (fst p, snd p)" and "(r, c) \<notin> set ps" by auto
  then show ?case using Cons.IH [of "fillCell hex (fst p) (snd p) st"] by (simp add: fillCell_other)
qed

lemma fill_border:
  "distinct ps \<Longrightarrow> (r, c) \<in> set ps \<Longrightarrow> isBorder (r, c) \<Longrightarrow>
   snd (fold (\<lambda>p. fillCell hex (fst p) (snd p)) ps st) r c = Some 7"
proof (induction ps arbitrary: st)
  case Nil
  then show ?case by simp
next
  case (Cons p ps)
  show ?case
  proof (cases "p = (r, c)")
    case True
    with Cons.prems have "(r, c) \<notin> set ps" by simp
    then have "snd (fold (\<lambda>p. fillCell hex (fst p) (snd p)) ps (fillCell hex r c st)) r c
                 = snd (fillCell hex r c st) r c"
      by (rule fill_untouched)
    then show ?thesis using True Cons.prems(3) by (simp add: fillCell_steel)
  next
    case False
    with Cons.prems have "(r, c) \<in> set ps" "distinct ps" by auto
    then show ?thesis using Cons.IH Cons.prems(3) by simp
  qed
qed

lemma fillPass_border:
  assumes "borderCell r c"
  shows "snd (fillPass hex st) r c = Some 7"
proof -
  have "(r, c) \<in> set gridCells"
    using assms by (auto simp: borderCell_def gridCells_def)
  with distinct_gridCells show ?thesis
    using assms by (simp add: fillPass_cells fill_border borderCell_def)
qed

lemma borderWrite_keeps:
  "borderOK k g \<Longrightarrow> 0 \<le> r \<Longrightarrow> r < rows \<Longrightarrow> borderWrite k r c v \<Longrightarrow> borderOK k (put g r c v)"
  by (auto simp: borderOK_def borderWrite_def put_def split: if_splits)

lemma decode_border:
  assumes chk: "checkInstr (borderWrite k) hex 0x20"
  shows "\<exists>seed g'. caveDecode hex d g = Inr (seed, g') \<and> borderOK k g'"
proof -
  obtain seed g1 where f: "fillPass hex (setSeed (rdi hex (0x04 + d - 1)), g) = (seed, g1)"
    by (cases "fillPass hex (setSeed (rdi hex (0x04 + d - 1)), g)")
  have "borderOK k g1"
    using fillPass_border [of _ _ hex "(setSeed (rdi hex (0x04 + d - 1)), g)"] f
    by (simp add: borderOK_def)
  with chk obtain g' where "caveInstr hex 0x20 g1 = Inr g'" and "borderOK k g'"
    using checkInstr_sound [where Inv = "borderOK k" and P = "borderWrite k"] borderWrite_keeps
    by blast
  then show ?thesis using f by (simp add: caveDecode_def)
qed


text \<open>The instructions of each of the twenty caves keep the border.\<close>

lemma cave1_border: "checkInstr (borderWrite 1) (rawCaveDatas ! 0) 0x20"
  by (auto simp: checkInstr.simps instrWrites_def instrLen_def okWrite_def borderWrite_def
      borderCell_def isBorder_def rows_def cols_def rd_def rawCaveDatas_def jsand_def jsadd_def
      bound_def getDXDYFromDirection_def exits_def Let_def list_all_iff)

lemma cave2_border: "checkInstr (borderWrite 2) (rawCaveDatas ! 1) 0x20"
  by (auto simp: checkInstr.simps instrWrites_def instrLen_def okWrite_def borderWrite_def
      borderCell_def isBorder_def rows_def cols_def rd_def rawCaveDatas_def jsand_def jsadd_def
      bound_def getDXDYFromDirection_def exits_def Let_def list_all_iff)

lemma cave3_border: "checkInstr (borderWrite 3) (rawCaveDatas ! 2) 0x20"
  by (auto simp: checkInstr.simps instrWrites_def instrLen_def okWrite_def borderWrite_def
      borderCell_def isBorder_def rows_def cols_def rd_def rawCaveDatas_def jsand_def jsadd_def
      bound_def getDXDYFromDirection_def exits_def Let_def list_all_iff)

lemma cave4_border: "checkInstr (borderWrite 4) (rawCaveDatas ! 3) 0x20"
  by (auto simp: checkInstr.simps instrWrites_def instrLen_def okWrite_def borderWrite_def
      borderCell_def isBorder_def rows_def cols_def rd_def rawCaveDatas_def jsand_def jsadd_def
      bound_def getDXDYFromDirection_def exits_def Let_def list_all_iff)

lemma cave5_border: "checkInstr (borderWrite 5) (rawCaveDatas ! 4) 0x20"
  by (auto simp: checkInstr.simps instrWrites_def instrLen_def okWrite_def borderWrite_def
      borderCell_def isBorder_def rows_def cols_def rd_def rawCaveDatas_def jsand_def jsadd_def
      bound_def getDXDYFromDirection_def exits_def Let_def list_all_iff)

lemma cave6_border: "checkInstr (borderWrite 6) (rawCaveDatas ! 5) 0x20"
  by (auto simp: checkInstr.simps instrWrites_def instrLen_def okWrite_def borderWrite_def
      borderCell_def isBorder_def rows_def cols_def rd_def rawCaveDatas_def jsand_def jsadd_def
      bound_def getDXDYFromDirection_def exits_def Let_def list_all_iff)

lemma cave7_border: "checkInstr (borderWrite 7) (rawCaveDatas ! 6) 0x20"
  by (auto simp: checkInstr.simps instrWrites_def instrLen_def okWrite_def borderWrite_def
      borderCell_def isBorder_def rows_def cols_def rd_def rawCaveDatas_def jsand_def jsadd_def
      bound_def getDXDYFromDirection_def exits_def Let_def list_all_iff)

lemma cave8_border: "checkInstr (borderWrite 8) (rawCaveDatas ! 7) 0x20"
  by (auto simp: checkInstr.simps instrWrites_def instrLen_def okWrite_def borderWrite_def
      borderCell_def isBorder_def rows_def cols_def rd_def rawCaveDatas_def jsand_def jsadd_def
      bound_def getDXDYFromDirection_def exits_def Let_def list_all_iff)

lemma cave9_border: "checkInstr (borderWrite 9) (rawCaveDatas ! 8) 0x20"
  by (auto simp: checkInstr.simps instrWrites_def instrLen_def okWrite_def borderWrite_def
      borderCell_def isBorder_def rows_def cols_def rd_def rawCaveDatas_def jsand_def jsadd_def
      bound_def getDXDYFromDirection_def exits_def Let_def list_all_iff)

lemma cave10_border: "checkInstr (borderWrite 10) (rawCaveDatas ! 9) 0x20"
  by (auto simp: checkInstr.simps instrWrites_def instrLen_def okWrite_def borderWrite_def
      borderCell_def isBorder_def rows_def cols_def rd_def rawCaveDatas_def jsand_def jsadd_def
      bound_def getDXDYFromDirection_def exits_def Let_def list_all_iff)

lemma cave11_border: "checkInstr (borderWrite 11) (rawCaveDatas ! 10) 0x20"
  by (auto simp: checkInstr.simps instrWrites_def instrLen_def okWrite_def borderWrite_def
      borderCell_def isBorder_def rows_def cols_def rd_def rawCaveDatas_def jsand_def jsadd_def
      bound_def getDXDYFromDirection_def exits_def Let_def list_all_iff)

lemma cave12_border: "checkInstr (borderWrite 12) (rawCaveDatas ! 11) 0x20"
  by (auto simp: checkInstr.simps instrWrites_def instrLen_def okWrite_def borderWrite_def
      borderCell_def isBorder_def rows_def cols_def rd_def rawCaveDatas_def jsand_def jsadd_def
      bound_def getDXDYFromDirection_def exits_def Let_def list_all_iff)

lemma cave13_border: "checkInstr (borderWrite 13) (rawCaveDatas ! 12) 0x20"
  by (auto simp: checkInstr.simps instrWrites_def instrLen_def okWrite_def borderWrite_def
      borderCell_def isBorder_def rows_def cols_def rd_def rawCaveDatas_def jsand_def jsadd_def
      bound_def getDXDYFromDirection_def exits_def Let_def list_all_iff)

lemma cave14_border: "checkInstr (borderWrite 14) (rawCaveDatas ! 13) 0x20"
  by (auto simp: checkInstr.simps instrWrites_def instrLen_def okWrite_def borderWrite_def
      borderCell_def isBorder_def rows_def cols_def rd_def rawCaveDatas_def jsand_def jsadd_def
      bound_def getDXDYFromDirection_def exits_def Let_def list_all_iff)

lemma cave15_border: "checkInstr (borderWrite 15) (rawCaveDatas ! 14) 0x20"
  by (auto simp: checkInstr.simps instrWrites_def instrLen_def okWrite_def borderWrite_def
      borderCell_def isBorder_def rows_def cols_def rd_def rawCaveDatas_def jsand_def jsadd_def
      bound_def getDXDYFromDirection_def exits_def Let_def list_all_iff)

lemma cave16_border: "checkInstr (borderWrite 16) (rawCaveDatas ! 15) 0x20"
  by (auto simp: checkInstr.simps instrWrites_def instrLen_def okWrite_def borderWrite_def
      borderCell_def isBorder_def rows_def cols_def rd_def rawCaveDatas_def jsand_def jsadd_def
      bound_def getDXDYFromDirection_def exits_def Let_def list_all_iff)

lemma cave17_border: "checkInstr (borderWrite 17) (rawCaveDatas ! 16) 0x20"
  by (auto simp: checkInstr.simps instrWrites_def instrLen_def okWrite_def borderWrite_def
      borderCell_def isBorder_def rows_def cols_def rd_def rawCaveDatas_def jsand_def jsadd_def
      bound_def getDXDYFromDirection_def exits_def Let_def list_all_iff)

lemma cave18_border: "checkInstr (borderWrite 18) (rawCaveDatas ! 17) 0x20"
  by (auto simp: checkInstr.simps instrWrites_def instrLen_def okWrite_def borderWrite_def
      borderCell_def isBorder_def rows_def cols_def rd_def rawCaveDatas_def jsand_def jsadd_def
      bound_def getDXDYFromDirection_def exits_def Let_def list_all_iff)

lemma cave19_border: "checkInstr (borderWrite 19) (rawCaveDatas ! 18) 0x20"
  by (auto simp: checkInstr.simps instrWrites_def instrLen_def okWrite_def borderWrite_def
      borderCell_def isBorder_def rows_def cols_def rd_def rawCaveDatas_def jsand_def jsadd_def
      bound_def getDXDYFromDirection_def exits_def Let_def list_all_iff)

lemma cave20_border: "checkInstr (borderWrite 20) (rawCaveDatas ! 19) 0x20"
  by (auto simp: checkInstr.simps instrWrites_def instrLen_def okWrite_def borderWrite_def
      borderCell_def isBorder_def rows_def cols_def rd_def rawCaveDatas_def jsand_def jsadd_def
      bound_def getDXDYFromDirection_def exits_def Let_def list_all_iff)

lemma foldE_exit:
  "foldE wr3 ws g = Inr g1 \<Longrightarrow>
   list_all (\<lambda>t. touches er ec t \<longrightarrow> snd (snd t) = Some 0x04) ws \<Longrightarrow>
   g1 er ec = (if list_ex (touches er ec) ws then Some 0x04 else g er ec)"
proof (induction ws arbitrary: g)
  case Nil
  then show ?case by simp
next
  case (Cons t ws)
  obtain r c v where t: "t = (r, c, v)" by (cases t)
  from Cons.prems(1) obtain g2 where g2: "wr3 t g = Inr g2" and rest: "foldE wr3 ws g2 = Inr g1"
    by (auto split: sum.splits)
  from Cons.prems(2) have tv: "touches er ec t \<longrightarrow> v = Some 0x04"
    and all: "list_all (\<lambda>t. touches er ec t \<longrightarrow> snd (snd t) = Some 0x04) ws"
    by (simp_all add: t)
  have ih: "g1 er ec = (if list_ex (touches er ec) ws then Some 0x04 else g2 er ec)"
    using Cons.IH [OF rest all] .
  have "g2 er ec = (if touches er ec t then Some 0x04 else g er ec)"
    using g2 tv
    by (auto simp: t wr3_tuple wr_def touches_def put_def split: option.splits if_splits)
  with ih show ?case by simp
qed

lemma checkExit_sound:
  "checkExit er ec hex index seen \<Longrightarrow> (seen \<longrightarrow> g er ec = Some 0x04) \<Longrightarrow>
   caveInstr hex index g = Inr g' \<Longrightarrow> g' er ec = Some 0x04"
proof (induction er ec hex index seen arbitrary: g rule: checkExit.induct)
  case (1 er ec hex index seen)
  show ?case
  proof (cases "rd hex index = Some 0xFF")
    case True
    with "1.prems" show ?thesis
      by (simp add: checkExit.simps [of er ec hex index] caveInstr.simps [of hex index])
  next
    case False
    with "1.prems"(1)
    have ok: "index < length hex
              \<and> list_all (\<lambda>t. touches er ec t \<longrightarrow> snd (snd t) = Some 0x04) (instrWrites hex index)"
      and nxt: "checkExit er ec hex (index + instrLen (rd hex index))
                  (seen \<or> list_ex (touches er ec) (instrWrites hex index))"
      by (simp_all add: checkExit.simps [of er ec hex index] split: if_splits)
    from "1.prems"(3) False obtain g1 where
      g1: "foldE wr3 (instrWrites hex index) g = Inr g1"
      and rest: "caveInstr hex (index + instrLen (rd hex index)) g1 = Inr g'"
      by (auto simp: caveInstr.simps [of hex index] instrStep_writes split: sum.splits)
    from ok have all: "list_all (\<lambda>t. touches er ec t \<longrightarrow> snd (snd t) = Some 0x04) (instrWrites hex index)"
      by simp
    have "g1 er ec = (if list_ex (touches er ec) (instrWrites hex index) then Some 0x04 else g er ec)"
      using foldE_exit [OF g1 all] .
    then have inv: "seen \<or> list_ex (touches er ec) (instrWrites hex index) \<longrightarrow> g1 er ec = Some 0x04"
      using "1.prems"(2) by auto
    from "1.IH" [OF False ok nxt inv rest] show ?thesis .
  qed
qed


lemma decode_exit:
  assumes chk: "checkExit er ec hex 0x20 False" and dec: "caveDecode hex d g = Inr (seed, g')"
  shows "g' er ec = Some 0x04"
proof -
  obtain s1 g1 where f: "fillPass hex (setSeed (rdi hex (0x04 + d - 1)), g) = (s1, g1)"
    by (cases "fillPass hex (setSeed (rdi hex (0x04 + d - 1)), g)")
  with dec have "caveInstr hex 0x20 g1 = Inr g'"
    by (simp add: caveDecode_def split: sum.splits)
  with chk show ?thesis by (rule checkExit_sound [where seen = False, simplified])
qed

text \<open>The exit of each of the eight caves is written, and not overwritten.\<close>

lemma cave3_exit: "checkExit 18 39 (rawCaveDatas ! 2) 0x20 False"
  by (auto simp: checkExit.simps instrWrites_def instrLen_def touches_def rd_def rawCaveDatas_def
      jsand_def jsadd_def bound_def getDXDYFromDirection_def Let_def list_all_iff list_ex_iff)

lemma cave5_exit: "checkExit 20 39 (rawCaveDatas ! 4) 0x20 False"
  by (auto simp: checkExit.simps instrWrites_def instrLen_def touches_def rd_def rawCaveDatas_def
      jsand_def jsadd_def bound_def getDXDYFromDirection_def Let_def list_all_iff list_ex_iff)

lemma cave7_exit: "checkExit 5 39 (rawCaveDatas ! 6) 0x20 False"
  by (auto simp: checkExit.simps instrWrites_def instrLen_def touches_def rd_def rawCaveDatas_def
      jsand_def jsadd_def bound_def getDXDYFromDirection_def Let_def list_all_iff list_ex_iff)

lemma cave8_exit: "checkExit 3 0 (rawCaveDatas ! 7) 0x20 False"
  by (auto simp: checkExit.simps instrWrites_def instrLen_def touches_def rd_def rawCaveDatas_def
      jsand_def jsadd_def bound_def getDXDYFromDirection_def Let_def list_all_iff list_ex_iff)

lemma cave10_exit: "checkExit 20 39 (rawCaveDatas ! 9) 0x20 False"
  by (auto simp: checkExit.simps instrWrites_def instrLen_def touches_def rd_def rawCaveDatas_def
      jsand_def jsadd_def bound_def getDXDYFromDirection_def Let_def list_all_iff list_ex_iff)

lemma cave12_exit: "checkExit 20 39 (rawCaveDatas ! 11) 0x20 False"
  by (auto simp: checkExit.simps instrWrites_def instrLen_def touches_def rd_def rawCaveDatas_def
      jsand_def jsadd_def bound_def getDXDYFromDirection_def Let_def list_all_iff list_ex_iff)

lemma cave14_exit: "checkExit 18 39 (rawCaveDatas ! 13) 0x20 False"
  by (auto simp: checkExit.simps instrWrites_def instrLen_def touches_def rd_def rawCaveDatas_def
      jsand_def jsadd_def bound_def getDXDYFromDirection_def Let_def list_all_iff list_ex_iff)

lemma cave16_exit: "checkExit 2 39 (rawCaveDatas ! 15) 0x20 False"
  by (auto simp: checkExit.simps instrWrites_def instrLen_def touches_def rd_def rawCaveDatas_def
      jsand_def jsadd_def bound_def getDXDYFromDirection_def Let_def list_all_iff list_ex_iff)


lemma all_exits:
  assumes "(k, r, c) \<in> set exits"
  shows "checkExit r c (rawCaveDatas ! nat (k - 1)) 0x20 False"
  using assms cave3_exit cave5_exit cave7_exit cave8_exit cave10_exit cave12_exit cave14_exit
    cave16_exit
  by (auto simp: exits_def)

lemma length_rawCaveDatas: "length rawCaveDatas = 20"
  by (simp add: rawCaveDatas_def)

lemma cave_lookup:
  assumes "1 \<le> k" "k \<le> 20"
  shows "rdi rawCaveDatas (k - 1) = Some (rawCaveDatas ! nat (k - 1))"
  using assms by (simp add: rdi_def rd_def length_rawCaveDatas)

lemma all_caves_border:
  assumes "1 \<le> k" "k \<le> 20"
  shows "checkInstr (borderWrite k) (rawCaveDatas ! nat (k - 1)) 0x20"
proof -
  from assms have "k = 1 \<or> k = 2 \<or> k = 3 \<or> k = 4 \<or> k = 5 \<or> k = 6 \<or> k = 7 \<or> k = 8 \<or> k = 9
      \<or> k = 10 \<or> k = 11 \<or> k = 12 \<or> k = 13 \<or> k = 14 \<or> k = 15 \<or> k = 16 \<or> k = 17 \<or> k = 18
      \<or> k = 19 \<or> k = 20"
    by arith
  then show ?thesis
    using cave1_border cave2_border cave3_border cave4_border cave5_border cave6_border
      cave7_border cave8_border cave9_border cave10_border cave11_border cave12_border
      cave13_border cave14_border cave15_border cave16_border cave17_border cave18_border
      cave19_border cave20_border
    by (elim disjE) simp_all
qed


text \<open>
  C7, as amended. For each of the twenty caves and every difficulty, decoding succeeds and
  every border cell holds the steel code 0x07, except the one border cell where the
  instructions of caves 3, 5, 7, 8, 10, 12, 14 and 16 put the exit: that cell holds 0x04.
\<close>

theorem border_after_decode:
  assumes "1 \<le> k" "k \<le> 20"
  shows "\<exists>seed g'. caveLoad rawCaveDatas k d g = Inr (seed, g')
           \<and> (\<forall>r c. borderCell r c \<longrightarrow>
                 g' r c = (if (k, r, c) \<in> set exits then Some 0x04 else Some 0x07))"
proof -
  have l: "caveLoad rawCaveDatas k d g = caveDecode (rawCaveDatas ! nat (k - 1)) d g"
    using cave_lookup [OF assms] by (simp add: caveLoad_def)
  from decode_border [OF all_caves_border [OF assms], of d g]
  obtain seed g' where dec: "caveDecode (rawCaveDatas ! nat (k - 1)) d g = Inr (seed, g')"
    and ok: "borderOK k g'"
    by blast
  have "g' r c = (if (k, r, c) \<in> set exits then Some 0x04 else Some 0x07)"
    if b: "borderCell r c" for r c
  proof (cases "(k, r, c) \<in> set exits")
    case True
    then show ?thesis using decode_exit [OF all_exits dec] by simp
  next
    case False
    then show ?thesis using ok b by (auto simp: borderOK_def)
  qed
  with l dec show ?thesis by simp
qed

text \<open>Cave 3 at difficulty 1: the border cell in row 18, column 39 holds the exit code 0x04,
  not steel.\<close>

lemma cave3_instr:
  "caveInstr (rawCaveDatas ! 2) 0x20 g = Inr (put (put g 2 3 (Some 0x25)) 18 39 (Some 0x04))"
  by (simp add: caveInstr.simps instrStep_def rd_def rawCaveDatas_def jsand_def wr_def rows_def
      Let_def)

theorem border_after_decode_counterexample:
  "\<exists>seed g'. caveLoad rawCaveDatas 3 1 cave0 = Inr (seed, g')
      \<and> borderCell 18 39 \<and> g' 18 39 = Some 0x04 \<and> g' 18 39 \<noteq> Some 0x07"
proof -
  obtain seed g1 where f: "fillPass (rawCaveDatas ! 2) (setSeed (rdi (rawCaveDatas ! 2) (0x04 + 1 - 1)), cave0)
                             = (seed, g1)"
    by (cases "fillPass (rawCaveDatas ! 2) (setSeed (rdi (rawCaveDatas ! 2) (0x04 + 1 - 1)), cave0)")
  have "rdi rawCaveDatas (3 - 1) = Some (rawCaveDatas ! 2)"
    by (simp add: rdi_def rd_def length_rawCaveDatas)
  then have "caveLoad rawCaveDatas 3 1 cave0 = Inr (seed, put (put g1 2 3 (Some 0x25)) 18 39 (Some 0x04))"
    using f by (simp add: caveLoad_def caveDecode_def cave3_instr)
  moreover have "borderCell 18 39"
    by (simp add: borderCell_def isBorder_def rows_def cols_def)
  moreover have "put (put g1 2 3 (Some 0x25)) 18 39 (Some 0x04) 18 39 = Some 0x04"
    by (simp add: put_def)
  ultimately show ?thesis by simp
qed

theorem border_after_decode_witness:
  "(1::int) \<le> 3 \<and> (3::int) \<le> 20
   \<and> (\<exists>seed g'. caveLoad rawCaveDatas 3 1 cave0 = Inr (seed, g')
          \<and> g' 0 0 = Some 0x07 \<and> g' 18 39 = Some 0x04)"
proof -
  have a: "(1::int) \<le> 3" and b: "(3::int) \<le> 20" by simp_all
  from border_after_decode [OF a b, of 1 cave0]
  obtain seed g' where l: "caveLoad rawCaveDatas 3 1 cave0 = Inr (seed, g')"
    and inv: "\<forall>r c. borderCell r c \<longrightarrow>
                 g' r c = (if (3, r, c) \<in> set exits then Some 0x04 else Some 0x07)"
    by blast
  have "borderCell 0 0" "borderCell 18 39"
    by (simp_all add: borderCell_def isBorder_def rows_def cols_def)
  with inv have "g' 0 0 = (if (3, 0, 0) \<in> set exits then Some 0x04 else Some 0x07)"
    and "g' 18 39 = (if (3, 18, 39) \<in> set exits then Some 0x04 else Some 0x07)"
    by blast+
  then have "g' 0 0 = Some 0x07" and "g' 18 39 = Some 0x04"
    by (simp_all add: exits_def)
  with l a b show ?thesis by blast
qed


subsection \<open>Sprites in cells\<close>

lemma findIndex_None: "findIndex P xs = None \<longleftrightarrow> (\<forall>x \<in> set xs. \<not> P x)"
  by (induction xs) auto

lemma findIndex_Some: "findIndex P xs = Some i \<Longrightarrow> i < length xs \<and> P (xs ! i)"
  by (induction xs arbitrary: i) (auto split: if_splits)

lemma getSpriteAt_None: "getSpriteAt sps c r = None \<longleftrightarrow> (c, r) \<notin> set (map coord sps)"
  by (auto simp: getSpriteAt_def findIndex_None coord_def)

lemma getSpriteAt_Some:
  "getSpriteAt sps c r = Some i \<Longrightarrow> i < length sps \<and> coord (sps ! i) = (c, r)"
  using findIndex_Some [of "\<lambda>sprite. col sprite = c \<and> row sprite = r" sps i]
  by (simp add: getSpriteAt_def coord_def)

lemma map_coord_same:
  "coord s' = coord (xs ! i) \<Longrightarrow> map coord (xs[i := s']) = map coord xs"
  by (cases "i < length xs") (simp_all add: map_update list_update_same_conv list_update_beyond)

lemma distinct_move:
  assumes "distinct (map coord xs)" and "coord s' \<notin> set (map coord xs)"
  shows "distinct (map coord (xs[i := s']))"
proof -
  have "coord s' \<notin> set (map coord xs) - {map coord xs ! i}" using assms(2) by blast
  with assms(1) have "distinct ((map coord xs)[i := coord s'])" by (rule distinct_list_update)
  then show ?thesis by (simp add: map_update)
qed

lemma fallOne_exclusive: "exclusive w \<Longrightarrow> exclusive (fallOne i w)"
proof -
  assume ex: "exclusive w"
  let ?s = "sprites w ! i"
  have same: "distinct (map coord ((sprites w)[i := ?s\<lparr>isFalling := b\<rparr>]))" for b
    using ex by (simp add: exclusive_def map_coord_same coord_def)
  have move: "distinct (map coord ((sprites w)[i := s']))"
    if "getSpriteAt (sprites w) (col s') (row s') = None" for s'
    using ex that by (intro distinct_move) (simp_all add: exclusive_def getSpriteAt_None coord_def)
  show ?thesis
  proof (cases "getSpriteAt (sprites w) (col ?s) (row ?s + 1)")
    case None
    then show ?thesis
      using move [of "?s\<lparr>isFalling := True, row := row ?s + 1\<rparr>"]
      by (simp add: fallOne_def exclusive_def Let_def)
  next
    case (Some below)
    show ?thesis
    proof (cases "rounded (sprites w ! below)")
      case True
      then show ?thesis
        using Some same [of False] move [of "?s\<lparr>col := col ?s - 1\<rparr>"]
          move [of "?s\<lparr>col := col ?s + 1\<rparr>"]
        by (simp add: fallOne_def exclusive_def Let_def)
    next
      case False
      then show ?thesis
        using Some same [of False] ex
        by (simp add: fallOne_def exclusive_def Let_def)
    qed
  qed
qed

lemma fold_fallOne_exclusive: "exclusive w \<Longrightarrow> exclusive (fold fallOne is w)"
  by (induction "is" arbitrary: w) (simp_all add: fallOne_exclusive)

lemma updateFalling_exclusive: "exclusive w \<Longrightarrow> exclusive (updateFalling w)"
  by (simp add: updateFalling_def fold_fallOne_exclusive)

lemma mset_insortSprite: "mset (insortSprite a bs) = add_mset a (mset bs)"
  by (induction bs) simp_all

lemma mset_orderSprites: "mset (orderSprites sps) = mset sps"
  by (induction sps) (simp_all add: orderSprites_def mset_insortSprite)

lemma orderSprites_distinct:
  "distinct (map coord (orderSprites sps)) = distinct (map coord sps)"
proof -
  have "mset (map coord (orderSprites sps)) = mset (map coord sps)"
    by (simp add: mset_orderSprites)
  then show ?thesis by (rule mset_eq_imp_distinct_iff)
qed

lemma coord_animOne: "coord (animOne s) = coord s"
  by (simp add: animOne_def coord_def Let_def)

lemma map_coord_animOne: "map coord (map animOne sps) = map coord sps"
  by (simp add: coord_animOne comp_def)

lemma mset_splice1: "i < length xs \<Longrightarrow> add_mset (xs ! i) (mset (splice1 i xs)) = mset xs"
proof -
  assume "i < length xs"
  then have "xs = take i xs @ xs ! i # drop (Suc i) xs" by (rule id_take_nth_drop)
  then have "mset xs = mset (take i xs @ xs ! i # drop (Suc i) xs)" by simp
  then show ?thesis by (simp add: splice1_def)
qed

lemma distinct_submset:
  assumes "distinct ys" and "mset xs \<subseteq># mset ys"
  shows "distinct xs"
proof -
  have "count (mset xs) a \<le> 1" for a
  proof -
    have "count (mset xs) a \<le> count (mset ys) a" using assms(2) by (rule mset_subset_eq_count)
    also have "\<dots> \<le> 1" using assms(1) by (simp add: distinct_count_atmost_1)
    finally show ?thesis .
  qed
  then show ?thesis
    unfolding distinct_count_atmost_1
    by (metis count_mset_0_iff le_neq_implies_less less_one)
qed

lemma coord_newSprite: "coord (newSprite c r ty) = (c, r)"
  by (simp add: newSprite_def coord_def Let_def)

lemma mset_map_splice1:
  assumes "i < length xs"
  shows "add_mset (f (xs ! i)) (mset (map f (splice1 i xs))) = mset (map f xs)"
proof -
  have "add_mset (f (xs ! i)) (mset (map f (splice1 i xs)))
          = image_mset f (add_mset (xs ! i) (mset (splice1 i xs)))"
    by simp
  also have "\<dots> = mset (map f xs)"
    by (simp only: mset_splice1 [OF assms] mset_map)
  finally show ?thesis .
qed

lemma consume_distinct:
  assumes d: "distinct (map coord xs)" and p: "p < length xs" and t: "t < length xs"
    and tp: "t \<noteq> p" and at: "coord s' = coord (xs ! t)"
  shows "distinct (map coord (splice1 t (xs[p := s'])))"
proof -
  let ?ys = "xs[p := s']"
  have yt: "?ys ! t = xs ! t" using tp by simp
  have "add_mset (coord (?ys ! t)) (mset (map coord (splice1 t ?ys))) = mset (map coord ?ys)"
    using t by (intro mset_map_splice1) simp
  also have "mset (map coord ?ys) = image_mset coord (mset ?ys)" by simp
  also have "mset ?ys = add_mset s' (mset xs - {#xs ! p#})" using p by (rule mset_update)
  finally have "add_mset (coord (xs ! t)) (mset (map coord (splice1 t ?ys)))
                  = add_mset (coord s') (image_mset coord (mset xs - {#xs ! p#}))"
    using yt by simp
  then have "mset (map coord (splice1 t ?ys)) = image_mset coord (mset xs - {#xs ! p#})"
    using at by simp
  also have "\<dots> \<subseteq># image_mset coord (mset xs)"
    by (intro image_mset_subseteq_mono diff_subset_eq_self)
  finally have "mset (map coord (splice1 t ?ys)) \<subseteq># mset (map coord xs)" by simp
  with d show ?thesis by (rule distinct_submset)
qed

lemma replace_distinct:
  assumes d: "distinct (map coord xs)" and i: "i < length xs" and at: "coord s' = coord (xs ! i)"
  shows "distinct (map coord (splice1 i (xs @ [s'])))"
proof -
  let ?ys = "xs @ [s']"
  have yi: "?ys ! i = xs ! i" using i by (simp add: nth_append)
  have "add_mset (coord (?ys ! i)) (mset (map coord (splice1 i ?ys))) = mset (map coord ?ys)"
    using i by (intro mset_map_splice1) simp
  then have "mset (map coord (splice1 i ?ys)) = mset (map coord xs)"
    using yi at by simp
  then show ?thesis using d mset_eq_imp_distinct_iff by blast
qed

lemma updatePlayer_exclusive:
  assumes ex: "exclusive w" and up: "updatePlayer w = Inr w'"
  shows "exclusive w'"
proof (cases "findIndex (\<lambda>sprite. name sprite = ''inbox'') (sprites w)")
  case None
  show ?thesis
  proof (cases "getDirectionFromJoypad (joypad w) = 0")
    case True
    with None up ex show ?thesis by (simp add: updatePlayer_def Let_def)
  next
    case False
    with None up obtain p where p: "findIndex (\<lambda>sprite. name sprite = ''rockford'') (sprites w) = Some p"
      by (auto simp: updatePlayer_def Let_def split: option.splits)
    then have pl: "p < length (sprites w)" and pn: "name (sprites w ! p) = ''rockford''"
      using findIndex_Some [of "\<lambda>sprite. name sprite = ''rockford''" "sprites w" p] by simp_all
    obtain dx dy where dd: "getDXDYFromDirection (Some (getDirectionFromJoypad (joypad w))) = (dx, dy)"
      by (cases "getDXDYFromDirection (Some (getDirectionFromJoypad (joypad w)))")
    let ?rk = "sprites w ! p"
    let ?rk' = "?rk\<lparr>col := col ?rk + dx, row := row ?rk + dy\<rparr>"
    show ?thesis
    proof (cases "getSpriteAt (sprites w) (col ?rk + dx) (row ?rk + dy)")
      case None': None
      then have "distinct (map coord ((sprites w)[p := ?rk']))"
        using ex by (intro distinct_move) (simp_all add: exclusive_def getSpriteAt_None coord_def)
      moreover have "w' = w\<lparr>sprites := (sprites w)[p := ?rk']\<rparr>"
        using up None False p dd None' by (simp add: updatePlayer_def Let_def)
      ultimately show ?thesis by (simp add: exclusive_def)
    next
      case (Some t)
      then have tl: "t < length (sprites w)" and tc: "coord (sprites w ! t) = (col ?rk + dx, row ?rk + dy)"
        using getSpriteAt_Some by blast+
      show ?thesis
      proof (cases "name (sprites w ! t) = ''dirt'' \<or> name (sprites w ! t) = ''diamond''")
        case True
        then have tp: "t \<noteq> p" using pn by auto
        have "distinct (map coord (splice1 t ((sprites w)[p := ?rk'])))"
          using ex pl tl tp tc by (intro consume_distinct) (simp_all add: exclusive_def coord_def)
        moreover have "w' = w\<lparr>sprites := splice1 t ((sprites w)[p := ?rk'])\<rparr>"
          using up None False p dd Some True by (simp add: updatePlayer_def Let_def)
        ultimately show ?thesis by (simp add: exclusive_def)
      next
        case no: False
        have "w' = w" using up None False p dd Some no by (simp add: updatePlayer_def Let_def)
        with ex show ?thesis by simp
      qed
    qed
  qed
next
  case (Some ib)
  then have il: "ib < length (sprites w)"
    using findIndex_Some [of "\<lambda>sprite. name sprite = ''inbox''" "sprites w" ib] by simp
  show ?thesis
  proof (cases "animCycle (sprites w ! ib) = 0")
    case True
    with Some up obtain ty where ty: "typeNamed ''rockford'' = Some ty"
      and w': "w' = w\<lparr>sprites := splice1 ib
                                      (appendSprites (col (sprites w ! ib))
                                         (row (sprites w ! ib)) ty (sprites w)),
                        console := console w @ [RockfordAppears (col (sprites w ! ib))
                                                                  (row (sprites w ! ib))]\<rparr>"
      by (auto simp: updatePlayer_def Let_def split: option.splits)
    have "distinct (map coord (splice1 ib (sprites w @ [newSprite (col (sprites w ! ib)) (row (sprites w ! ib)) ty])))"
      using ex il by (intro replace_distinct) (simp_all add: exclusive_def coord_newSprite, simp add: coord_def)
    then show ?thesis by (simp add: w' exclusive_def appendSprites_def)
  next
    case False
    with Some up ex show ?thesis by (simp add: updatePlayer_def Let_def)
  qed
qed

lemma update_exclusive:
  assumes ex: "exclusive w" and up: "update w = Inr w'"
  shows "exclusive w'"
proof -
  from up obtain w1 where w1: "updatePlayer w = Inr w1"
    and w': "w' = (updateFalling (w1\<lparr>sprites := orderSprites (sprites w1)\<rparr>))
                    \<lparr>sprites := map animOne (sprites (updateFalling (w1\<lparr>sprites := orderSprites (sprites w1)\<rparr>)))\<rparr>"
    by (auto simp: update_def Let_def split: sum.splits)
  have "exclusive w1" using ex w1 by (rule updatePlayer_exclusive)
  then have "exclusive (w1\<lparr>sprites := orderSprites (sprites w1)\<rparr>)"
    by (simp add: exclusive_def orderSprites_distinct)
  then have "exclusive (updateFalling (w1\<lparr>sprites := orderSprites (sprites w1)\<rparr>))"
    by (rule updateFalling_exclusive)
  then show ?thesis
    by (simp add: w' exclusive_def map_coord_animOne del: map_map)
qed

lemma setupCell_sprites:
  "sprites (setupCell r c w) = sprites w
   \<or> (\<exists>ty. sprites (setupCell r c w) = sprites w @ [newSprite c r ty])"
  by (auto simp: setupCell_def Let_def appendSprites_def split: option.splits)

lemma expand_cells:
  "distinct ps \<Longrightarrow> distinct (map coord (sprites w)) \<Longrightarrow>
   (\<forall>p \<in> set ps. (snd p, fst p) \<notin> set (map coord (sprites w))) \<Longrightarrow>
   distinct (map coord (sprites (fold (\<lambda>p. setupCell (fst p) (snd p)) ps w)))"
proof (induction ps arbitrary: w)
  case Nil
  then show ?case by simp
next
  case (Cons p ps)
  let ?w1 = "setupCell (fst p) (snd p) w"
  from Cons.prems have pn: "p \<notin> set ps" and d: "distinct ps" by simp_all
  have here: "(snd p, fst p) \<notin> set (map coord (sprites w))" using Cons.prems(3) by simp
  have sub: "set (map coord (sprites ?w1)) \<subseteq> insert (snd p, fst p) (set (map coord (sprites w)))"
    using setupCell_sprites [of "fst p" "snd p" w] by (auto simp: coord_newSprite)
  have d1: "distinct (map coord (sprites ?w1))"
    using setupCell_sprites [of "fst p" "snd p" w] Cons.prems(2) here
    by (auto simp: coord_newSprite)
  have rest: "\<forall>q \<in> set ps. (snd q, fst q) \<notin> set (map coord (sprites ?w1))"
  proof
    fix q assume q: "q \<in> set ps"
    then have "q \<noteq> p" using pn by auto
    then have "(snd q, fst q) \<noteq> (snd p, fst p)" by (auto simp: prod_eq_iff)
    moreover have "(snd q, fst q) \<notin> set (map coord (sprites w))" using Cons.prems(3) q by simp
    ultimately show "(snd q, fst q) \<notin> set (map coord (sprites ?w1))" using sub by blast
  qed
  from Cons.IH [OF d d1 rest] show ?case by simp
qed

lemma expandSprites_exclusive: "exclusive (expandSprites w)"
  unfolding exclusive_def expandSprites_def fold_fold_product
  by (rule expand_cells) (simp_all add: distinct_product)

lemma setupGame_exclusive: "setupGame datas w0 = Inr w \<Longrightarrow> exclusive w"
  by (auto simp: setupGame_def expandSprites_exclusive split: sum.splits)


subsection \<open>What a tick changes\<close>

lemma keptOrNew_refl: "keptOrNew xs xs"
  by (auto simp: keptOrNew_def)

lemma keptOrNew_trans: "keptOrNew xs ys \<Longrightarrow> keptOrNew ys zs \<Longrightarrow> keptOrNew xs zs"
  unfolding keptOrNew_def by metis

lemma keptOrNew_subset: "set ys \<subseteq> set xs \<Longrightarrow> keptOrNew xs ys"
  by (auto simp: keptOrNew_def)

lemma keptOrNew_update:
  "madeAs s' = madeAs (xs ! i) \<Longrightarrow> keptOrNew xs (xs[i := s'])"
proof (cases "i < length xs")
  case True
  assume m: "madeAs s' = madeAs (xs ! i)"
  have "set (xs[i := s']) \<subseteq> insert s' (set xs)" by (rule set_update_subset_insert)
  moreover have "xs ! i \<in> set xs" using True by simp
  ultimately show ?thesis using m by (auto simp: keptOrNew_def)
next
  case False
  then show ?thesis by (simp add: keptOrNew_refl list_update_beyond)
qed

lemma set_splice1: "set (splice1 i xs) \<subseteq> set xs"
  using set_take_subset [of i xs] set_drop_subset [of "Suc i" xs] by (auto simp: splice1_def)

lemma set_orderSprites: "set (orderSprites sps) = set sps"
  using mset_orderSprites [of sps] by (metis set_mset_mset)

lemma typeNamed_rockford: "typeNamed ''rockford'' = Some rockfordType"
  by (simp add: typeNamed_def types_def rockfordType_def)

lemma updatePlayer_cases:
  assumes up: "updatePlayer w = Inr w'"
  obtains (stay) "w' = w"
  | (move) p dx dy where
      "findIndex (\<lambda>sprite. name sprite = ''rockford'') (sprites w) = Some p"
      "getSpriteAt (sprites w) (col (sprites w ! p) + dx) (row (sprites w ! p) + dy) = None"
      "w' = w\<lparr>sprites := (sprites w)[p := (sprites w ! p)\<lparr>col := col (sprites w ! p) + dx,
                                                         row := row (sprites w ! p) + dy\<rparr>]\<rparr>"
  | (consume) p t dx dy where
      "findIndex (\<lambda>sprite. name sprite = ''rockford'') (sprites w) = Some p"
      "getSpriteAt (sprites w) (col (sprites w ! p) + dx) (row (sprites w ! p) + dy) = Some t"
      "name (sprites w ! t) = ''dirt'' \<or> name (sprites w ! t) = ''diamond''"
      "w' = w\<lparr>sprites := splice1 t ((sprites w)[p := (sprites w ! p)\<lparr>col := col (sprites w ! p) + dx,
                                                         row := row (sprites w ! p) + dy\<rparr>])\<rparr>"
  | (appear) ib where
      "findIndex (\<lambda>sprite. name sprite = ''inbox'') (sprites w) = Some ib"
      "w' = w\<lparr>sprites := splice1 ib (sprites w @ [newSprite (col (sprites w ! ib))
                                                    (row (sprites w ! ib)) rockfordType]),
               console := console w @ [RockfordAppears (col (sprites w ! ib))
                                                         (row (sprites w ! ib))]\<rparr>"
proof (cases "findIndex (\<lambda>sprite. name sprite = ''inbox'') (sprites w)")
  case None
  show ?thesis
  proof (cases "getDirectionFromJoypad (joypad w) = 0")
    case True
    with None up have "w' = w" by (simp add: updatePlayer_def)
    then show ?thesis by (rule stay)
  next
    case False
    with None up obtain p where p: "findIndex (\<lambda>sprite. name sprite = ''rockford'') (sprites w) = Some p"
      by (cases "findIndex (\<lambda>sprite. name sprite = ''rockford'') (sprites w)")
         (simp_all add: updatePlayer_def)
    obtain dx dy where dd: "getDXDYFromDirection (Some (getDirectionFromJoypad (joypad w))) = (dx, dy)"
      by (cases "getDXDYFromDirection (Some (getDirectionFromJoypad (joypad w)))")
    show ?thesis
    proof (cases "getSpriteAt (sprites w) (col (sprites w ! p) + dx) (row (sprites w ! p) + dy)")
      case None': None
      have "w' = w\<lparr>sprites := (sprites w)[p := (sprites w ! p)\<lparr>col := col (sprites w ! p) + dx,
                                                         row := row (sprites w ! p) + dy\<rparr>]\<rparr>"
        using up None False p dd None' by (simp add: updatePlayer_def Let_def)
      with p None' show ?thesis by (rule move)
    next
      case (Some t)
      show ?thesis
      proof (cases "name (sprites w ! t) = ''dirt'' \<or> name (sprites w ! t) = ''diamond''")
        case True
        have "w' = w\<lparr>sprites := splice1 t ((sprites w)[p := (sprites w ! p)\<lparr>col := col (sprites w ! p) + dx,
                                                         row := row (sprites w ! p) + dy\<rparr>])\<rparr>"
          using up None False p dd Some True by (simp add: updatePlayer_def Let_def)
        with p Some True show ?thesis by (rule consume)
      next
        case no: False
        have "w' = w" using up None False p dd Some no by (simp add: updatePlayer_def Let_def)
        then show ?thesis by (rule stay)
      qed
    qed
  qed
next
  case (Some ib)
  show ?thesis
  proof (cases "animCycle (sprites w ! ib) = 0")
    case True
    have "w' = w\<lparr>sprites := splice1 ib (sprites w @ [newSprite (col (sprites w ! ib))
                                                    (row (sprites w ! ib)) rockfordType]),
               console := console w @ [RockfordAppears (col (sprites w ! ib))
                                                         (row (sprites w ! ib))]\<rparr>"
      using up Some True by (simp add: updatePlayer_def typeNamed_rockford appendSprites_def)
    with Some show ?thesis by (rule appear)
  next
    case False
    with Some up have "w' = w" by (simp add: updatePlayer_def)
    then show ?thesis by (rule stay)
  qed
qed

lemma updatePlayer_frame:
  assumes "updatePlayer w = Inr w'"
  shows "sameGlobals w w' \<and> keptOrNew (sprites w) (sprites w')"
  using assms
proof (cases rule: updatePlayer_cases)
  case stay
  then show ?thesis by (simp add: sameGlobals_def keptOrNew_refl)
next
  case (move p dx dy)
  have "keptOrNew (sprites w) ((sprites w)[p := (sprites w ! p)\<lparr>col := col (sprites w ! p) + dx,
                                                         row := row (sprites w ! p) + dy\<rparr>])"
    by (rule keptOrNew_update) (simp add: madeAs_def)
  with move show ?thesis by (simp add: sameGlobals_def)
next
  case (consume p t dx dy)
  have "keptOrNew (sprites w) ((sprites w)[p := (sprites w ! p)\<lparr>col := col (sprites w ! p) + dx,
                                                         row := row (sprites w ! p) + dy\<rparr>])"
    by (rule keptOrNew_update) (simp add: madeAs_def)
  then have "keptOrNew (sprites w) (splice1 t ((sprites w)[p := (sprites w ! p)\<lparr>col := col (sprites w ! p) + dx,
                                                         row := row (sprites w ! p) + dy\<rparr>]))"
    by (rule keptOrNew_trans) (rule keptOrNew_subset [OF set_splice1])
  with consume show ?thesis by (simp add: sameGlobals_def)
next
  case (appear ib)
  have "keptOrNew (sprites w) (sprites w @ [newSprite (col (sprites w ! ib))
                                                    (row (sprites w ! ib)) rockfordType])"
    by (auto simp: keptOrNew_def)
  then have "keptOrNew (sprites w) (splice1 ib (sprites w @ [newSprite (col (sprites w ! ib))
                                                    (row (sprites w ! ib)) rockfordType]))"
    by (rule keptOrNew_trans) (rule keptOrNew_subset [OF set_splice1])
  with appear show ?thesis by (simp add: sameGlobals_def)
qed

lemma fallOne_frame: "sameGlobals w (fallOne i w) \<and> keptOrNew (sprites w) (sprites (fallOne i w))"
proof -
  have k: "keptOrNew (sprites w) ((sprites w)[i := s'])" if "madeAs s' = madeAs (sprites w ! i)" for s'
    using that by (rule keptOrNew_update)
  have k1: "keptOrNew (sprites w) ((sprites w)[i := (sprites w ! i)\<lparr>isFalling := b\<rparr>])" for b
    by (rule k) (simp add: madeAs_def)
  have k2: "keptOrNew (sprites w) ((sprites w)[i := (sprites w ! i)\<lparr>col := a\<rparr>])" for a
    by (rule k) (simp add: madeAs_def)
  have k3: "keptOrNew (sprites w) ((sprites w)[i := (sprites w ! i)\<lparr>isFalling := True, row := a\<rparr>])" for a
    by (rule k) (simp add: madeAs_def)
  have g: "sameGlobals w (fallOne i w)"
    by (simp add: fallOne_def Let_def sameGlobals_def split: option.splits)
  have "keptOrNew (sprites w) (sprites (fallOne i w))"
    using k1 k2 k3 by (simp add: fallOne_def Let_def keptOrNew_refl split: option.splits)
  with g show ?thesis by simp
qed

lemma sameGlobals_trans: "sameGlobals a b \<Longrightarrow> sameGlobals b c \<Longrightarrow> sameGlobals a c"
  by (simp add: sameGlobals_def)

lemma fold_fallOne_frame:
  "sameGlobals w (fold fallOne is w) \<and> keptOrNew (sprites w) (sprites (fold fallOne is w))"
proof (induction "is" arbitrary: w)
  case Nil
  show ?case by (simp add: sameGlobals_def keptOrNew_refl)
next
  case (Cons i "is")
  have a: "sameGlobals w (fallOne i w)" "keptOrNew (sprites w) (sprites (fallOne i w))"
    using fallOne_frame [of w i] by simp_all
  have b: "sameGlobals (fallOne i w) (fold fallOne is (fallOne i w))"
    "keptOrNew (sprites (fallOne i w)) (sprites (fold fallOne is (fallOne i w)))"
    using Cons [of "fallOne i w"] by simp_all
  show ?case
    using sameGlobals_trans [OF a(1) b(1)] keptOrNew_trans [OF a(2) b(2)] by simp
qed

lemma madeAs_animOne: "madeAs (animOne s) = madeAs s"
  by (simp add: animOne_def madeAs_def Let_def)

lemma keptOrNew_animOne: "keptOrNew xs (map animOne xs)"
  by (auto simp: keptOrNew_def madeAs_animOne)

lemma update_throws:
  "update w = Inl e \<longleftrightarrow>
     findIndex (\<lambda>sprite. name sprite = ''inbox'') (sprites w) = None
     \<and> getDirectionFromJoypad (joypad w) \<noteq> 0
     \<and> findIndex (\<lambda>sprite. name sprite = ''rockford'') (sprites w) = None"
proof -
  have "update w = Inl e \<longleftrightarrow> updatePlayer w = Inl e"
    by (cases e) (auto simp: update_def Let_def split: sum.splits)
  also have "\<dots> \<longleftrightarrow>
     findIndex (\<lambda>sprite. name sprite = ''inbox'') (sprites w) = None
     \<and> getDirectionFromJoypad (joypad w) \<noteq> 0
     \<and> findIndex (\<lambda>sprite. name sprite = ''rockford'') (sprites w) = None"
    by (cases e)
       (auto simp: updatePlayer_def Let_def typeNamed_rockford split: option.splits prod.splits)
  finally show ?thesis .
qed

text \<open>
  C10. A tick that returns leaves the grid \<^verbatim>\<open>cave\<close> as it was, and with it the seed, the cave
  and difficulty numbers and the key state: it changes the sprite list (and prints). Every
  sprite of the new list is a sprite of the old one, up to its cell, its falling flag and
  its animation counters, or the Rockford made from the inbox. (A tick throws only at
  \<^verbatim>\<open>rockford.col\<close>, before its first assignment: \<open>update_throws\<close>.)
\<close>

theorem update_frame:
  assumes "update w = Inr w'"
  shows "cave w' = cave w \<and> currentSeed w' = currentSeed w \<and> caveId w' = caveId w
         \<and> difficultyId w' = difficultyId w \<and> joypad w' = joypad w
         \<and> keptOrNew (sprites w) (sprites w')"
proof -
  from assms obtain w1 where w1: "updatePlayer w = Inr w1"
    and w': "w' = (updateFalling (w1\<lparr>sprites := orderSprites (sprites w1)\<rparr>))
                    \<lparr>sprites := map animOne (sprites (updateFalling (w1\<lparr>sprites := orderSprites (sprites w1)\<rparr>)))\<rparr>"
    by (auto simp: update_def Let_def split: sum.splits)
  let ?w2 = "w1\<lparr>sprites := orderSprites (sprites w1)\<rparr>"
  let ?w3 = "updateFalling ?w2"
  have a: "sameGlobals w w1" "keptOrNew (sprites w) (sprites w1)"
    using updatePlayer_frame [OF w1] by simp_all
  have b: "sameGlobals w1 ?w2" "keptOrNew (sprites w1) (sprites ?w2)"
    by (simp_all add: sameGlobals_def keptOrNew_subset set_orderSprites)
  have c: "sameGlobals ?w2 ?w3" "keptOrNew (sprites ?w2) (sprites ?w3)"
    using fold_fallOne_frame [of ?w2] by (simp_all add: updateFalling_def)
  have d: "sameGlobals ?w3 w'" "keptOrNew (sprites ?w3) (sprites w')"
    by (simp_all add: w' sameGlobals_def keptOrNew_animOne)
  have "sameGlobals w w'"
    using a(1) b(1) c(1) d(1) sameGlobals_trans by blast
  moreover have "keptOrNew (sprites w) (sprites w')"
    using keptOrNew_trans [OF keptOrNew_trans [OF keptOrNew_trans [OF a(2) b(2)] c(2)] d(2)] .
  ultimately show ?thesis by (simp add: sameGlobals_def)
qed

theorem update_frame_witness:
  "update (world0\<lparr>sprites := [newSprite 5 5 rockfordType, newSprite 6 5 dirtType,
                               newSprite 7 3 boulderType], joypad := 2\<rparr>)
     = Inr (world0\<lparr>sprites := [(newSprite 7 3 boulderType)\<lparr>isFalling := True, row := 4\<rparr>,
                               (newSprite 5 5 rockfordType)\<lparr>col := 6\<rparr>], joypad := 2\<rparr>)
   \<and> cave (world0\<lparr>sprites := [(newSprite 7 3 boulderType)\<lparr>isFalling := True, row := 4\<rparr>,
                               (newSprite 5 5 rockfordType)\<lparr>col := 6\<rparr>], joypad := 2\<rparr>) = cave0
   \<and> keptOrNew [newSprite 5 5 rockfordType, newSprite 6 5 dirtType, newSprite 7 3 boulderType]
        [(newSprite 7 3 boulderType)\<lparr>isFalling := True, row := 4\<rparr>,
         (newSprite 5 5 rockfordType)\<lparr>col := 6\<rparr>]"
proof -
  have u: "update (world0\<lparr>sprites := [newSprite 5 5 rockfordType, newSprite 6 5 dirtType,
                               newSprite 7 3 boulderType], joypad := 2\<rparr>)
     = Inr (world0\<lparr>sprites := [(newSprite 7 3 boulderType)\<lparr>isFalling := True, row := 4\<rparr>,
                               (newSprite 5 5 rockfordType)\<lparr>col := 6\<rparr>], joypad := 2\<rparr>)"
    by (simp add: update_def updatePlayer_def updateFalling_def fallOne_def orderSprites_def
        spriteLe_def animOne_def getSpriteAt_def getDirectionFromJoypad_def isJoypadPressed_def
        getDXDYFromDirection_def JOYPAD_UP_def JOYPAD_RIGHT_def splice1_def newSprite_def
        rockfordType_def dirtType_def boulderType_def world0_def Let_def)
  from update_frame [OF u] u show ?thesis by (simp add: world0_def)
qed


subsection \<open>Falling\<close>

lemma fallOne_length: "length (sprites (fallOne j w)) = length (sprites w)"
  by (simp add: fallOne_def Let_def split: option.splits)

lemma fallOne_other: "j \<noteq> i \<Longrightarrow> sprites (fallOne j w) ! i = sprites w ! i"
  by (simp add: fallOne_def Let_def split: option.splits)

lemma fold_fallOne_length: "length (sprites (fold fallOne js w)) = length (sprites w)"
  by (induction js arbitrary: w) (simp_all add: fallOne_length)

lemma fold_fallOne_other: "i \<notin> set js \<Longrightarrow> sprites (fold fallOne js w) ! i = sprites w ! i"
  by (induction js arbitrary: w) (simp_all add: fallOne_other)

lemma upt_split3:
  assumes "i < n"
  shows "[0..<n] = [0..<i] @ i # [Suc i..<n]"
proof -
  have "[0..<i + (n - i)] = [0..<i] @ [i..<i + (n - i)]" by (rule upt_add_eq_append) simp
  moreover have "i + (n - i) = n" using assms by simp
  ultimately have "[0..<n] = [0..<i] @ [i..<n]" by simp
  also have "[i..<n] = i # [Suc i..<n]" using assms by (rule upt_conv_Cons)
  finally show ?thesis .
qed

lemma updateFalling_turn:
  assumes i: "i < length (sprites w)" and f: "fallable (sprites w ! i)"
  shows "sprites (updateFalling w) ! i = sprites (fallOne i (atTurn w i)) ! i"
proof -
  let ?P = "\<lambda>j. fallable (sprites w ! j)"
  let ?n = "length (sprites w)"
  have "filter ?P [0..<?n] = filter ?P ([0..<i] @ i # [Suc i..<?n])"
    using upt_split3 [OF i] by simp
  also have "\<dots> = filter ?P [0..<i] @ i # filter ?P [Suc i..<?n]"
    using f by simp
  finally have "updateFalling w = fold fallOne (filter ?P [Suc i..<?n]) (fallOne i (atTurn w i))"
    by (simp add: updateFalling_def atTurn_def)
  moreover have "i \<notin> set (filter ?P [Suc i..<?n])" by simp
  ultimately show ?thesis by (simp add: fold_fallOne_other)
qed

lemma atTurn_same: "sprites (atTurn w i) ! i = sprites w ! i"
  by (simp add: atTurn_def fold_fallOne_other)

lemma atTurn_length: "length (sprites (atTurn w i)) = length (sprites w)"
  by (simp add: atTurn_def fold_fallOne_length)

lemma fallOne_rounded:
  assumes "getSpriteAt (sprites w) (col (sprites w ! i)) (row (sprites w ! i) + 1) = Some b"
    and "rounded (sprites w ! b)"
  shows "fallOne i w =
     (if leftClear w i
      then w\<lparr>sprites := (sprites w)[i := (sprites w ! i)\<lparr>col := col (sprites w ! i) - 1\<rparr>]\<rparr>
      else if rightClear w i
      then w\<lparr>sprites := (sprites w)[i := (sprites w ! i)\<lparr>col := col (sprites w ! i) + 1\<rparr>]\<rparr>
      else w\<lparr>sprites := (sprites w)[i := (sprites w ! i)\<lparr>isFalling := False\<rparr>]\<rparr>)"
  using assms by (simp add: fallOne_def Let_def leftClear_def rightClear_def)

text \<open>
  C5. A fallable sprite, at its turn in the falling loop, whose cell below holds a rounded
  sprite: when the cell on its left and the cell below-left are empty it moves one column
  left, also when the two cells on its right are empty as well; it moves one column right
  only when the left test fails and the two right cells are empty; when both tests fail it
  stops falling. The loop changes nothing else of the sprite, and no later turn touches it.
\<close>

theorem diagonal_tie_break:
  assumes i: "i < length (sprites w)" and f: "fallable (sprites w ! i)"
    and below: "getSpriteAt (sprites (atTurn w i)) (col (sprites w ! i)) (row (sprites w ! i) + 1)
                  = Some b"
    and round: "rounded (sprites (atTurn w i) ! b)"
  shows
    "(leftClear (atTurn w i) i
        \<longrightarrow> sprites (updateFalling w) ! i = (sprites w ! i)\<lparr>col := col (sprites w ! i) - 1\<rparr>)
     \<and> (\<not> leftClear (atTurn w i) i \<and> rightClear (atTurn w i) i
        \<longrightarrow> sprites (updateFalling w) ! i = (sprites w ! i)\<lparr>col := col (sprites w ! i) + 1\<rparr>)
     \<and> (\<not> leftClear (atTurn w i) i \<and> \<not> rightClear (atTurn w i) i
        \<longrightarrow> sprites (updateFalling w) ! i = (sprites w ! i)\<lparr>isFalling := False\<rparr>)"
proof -
  let ?v = "atTurn w i"
  have s: "sprites ?v ! i = sprites w ! i" by (rule atTurn_same)
  have l: "i < length (sprites ?v)" using i by (simp add: atTurn_length)
  have t: "sprites (updateFalling w) ! i = sprites (fallOne i ?v) ! i"
    using i f by (rule updateFalling_turn)
  have b: "getSpriteAt (sprites ?v) (col (sprites ?v ! i)) (row (sprites ?v ! i) + 1) = Some b"
    using below s by simp
  note body = fallOne_rounded [OF b round]
  have left: "sprites (fallOne i ?v) ! i = (sprites w ! i)\<lparr>col := col (sprites w ! i) - 1\<rparr>"
    if "leftClear ?v i"
    using that l by (simp add: body s)
  have right: "sprites (fallOne i ?v) ! i = (sprites w ! i)\<lparr>col := col (sprites w ! i) + 1\<rparr>"
    if "\<not> leftClear ?v i" "rightClear ?v i"
    using that l by (simp add: body s)
  have rest: "sprites (fallOne i ?v) ! i = (sprites w ! i)\<lparr>isFalling := False\<rparr>"
    if "\<not> leftClear ?v i" "\<not> rightClear ?v i"
    using that l by (simp add: body s)
  from left right rest t show ?thesis by simp
qed

theorem diagonal_tie_break_witness:
  "fallable ([newSprite 5 5 boulderType, newSprite 5 6 boulderType, newSprite 5 7 dirtType] ! 0)
   \<and> getSpriteAt (sprites (atTurn (world0\<lparr>sprites := [newSprite 5 5 boulderType,
                         newSprite 5 6 boulderType, newSprite 5 7 dirtType]\<rparr>) 0)) 5 (5 + 1) = Some 1
   \<and> leftClear (atTurn (world0\<lparr>sprites := [newSprite 5 5 boulderType, newSprite 5 6 boulderType,
                                           newSprite 5 7 dirtType]\<rparr>) 0) 0
   \<and> rightClear (atTurn (world0\<lparr>sprites := [newSprite 5 5 boulderType, newSprite 5 6 boulderType,
                                            newSprite 5 7 dirtType]\<rparr>) 0) 0
   \<and> sprites (updateFalling (world0\<lparr>sprites := [newSprite 5 5 boulderType,
                 newSprite 5 6 boulderType, newSprite 5 7 dirtType]\<rparr>)) ! 0
       = newSprite 4 5 boulderType"
proof -
  let ?w = "world0\<lparr>sprites := [newSprite 5 5 boulderType, newSprite 5 6 boulderType,
                                newSprite 5 7 dirtType]\<rparr>"
  have v: "atTurn ?w 0 = ?w" by (simp add: atTurn_def)
  have i: "0 < length (sprites ?w)" by simp
  have f: "fallable (sprites ?w ! 0)" by (simp add: newSprite_def boulderType_def Let_def)
  have b: "getSpriteAt (sprites (atTurn ?w 0)) (col (sprites ?w ! 0)) (row (sprites ?w ! 0) + 1) = Some 1"
    unfolding v by (simp add: getSpriteAt_def newSprite_def boulderType_def dirtType_def Let_def)
  have r: "rounded (sprites (atTurn ?w 0) ! 1)"
    unfolding v by (simp add: newSprite_def boulderType_def Let_def)
  have lc: "leftClear (atTurn ?w 0) 0"
    unfolding v
    by (simp add: leftClear_def getSpriteAt_def newSprite_def boulderType_def dirtType_def Let_def)
  have rc: "rightClear (atTurn ?w 0) 0"
    unfolding v
    by (simp add: rightClear_def getSpriteAt_def newSprite_def boulderType_def dirtType_def Let_def)
  from diagonal_tie_break [OF i f b r] lc
  have "sprites (updateFalling ?w) ! 0 = (sprites ?w ! 0)\<lparr>col := col (sprites ?w ! 0) - 1\<rparr>"
    by blast
  then have "sprites (updateFalling ?w) ! 0 = newSprite 4 5 boulderType"
    by (simp add: newSprite_def boulderType_def Let_def)
  with f b lc rc show ?thesis
    by (simp add: newSprite_def boulderType_def Let_def)
qed

text \<open>
  C3. The claim is that the explosion branch is taken when the sprite below is explodable.
  The code tests \<^verbatim>\<open>sprite.explodable\<close>, the flag of the falling sprite, where the branch
  before it tests \<^verbatim>\<open>below.rounded\<close>: a falling boulder right above a firefly (explodable,
  not rounded) is set to resting, and nothing is printed.
\<close>

theorem crush_of_explodable_is_resting:
  "explodable (newSprite 5 6 fireflyType) \<and> \<not> rounded (newSprite 5 6 fireflyType)
   \<and> fallable (newSprite 5 5 boulderType)
   \<and> fallOne 0 (world0\<lparr>sprites := [(newSprite 5 5 boulderType)\<lparr>isFalling := True\<rparr>,
                                    newSprite 5 6 fireflyType]\<rparr>)
       = world0\<lparr>sprites := [(newSprite 5 5 boulderType)\<lparr>isFalling := False\<rparr>,
                            newSprite 5 6 fireflyType]\<rparr>
   \<and> update (world0\<lparr>sprites := [(newSprite 5 5 boulderType)\<lparr>isFalling := True\<rparr>,
                                 newSprite 5 6 fireflyType]\<rparr>)
       = Inr (world0\<lparr>sprites := [(newSprite 5 5 boulderType)\<lparr>isFalling := False\<rparr>,
                                 (newSprite 5 6 fireflyType)\<lparr>animId := 1\<rparr>],
                     console := []\<rparr>)"
  by (simp add: update_def updatePlayer_def updateFalling_def fallOne_def orderSprites_def
      spriteLe_def animOne_def getSpriteAt_def getDirectionFromJoypad_def isJoypadPressed_def
      JOYPAD_UP_def JOYPAD_RIGHT_def JOYPAD_DOWN_def JOYPAD_LEFT_def newSprite_def
      boulderType_def fireflyType_def world0_def Let_def)

text \<open>No sprite that \<^verbatim>\<open>appendSprites\<close> makes is both fallable and explodable: for them the
  explosion branch is never taken.\<close>

lemma newSprite_never_both: "\<not> (fallable (newSprite c r ty) \<and> explodable (newSprite c r ty))"
  by (auto simp: newSprite_def Let_def)


subsection \<open>The player\<close>

text \<open>
  C6. With no inbox sprite, a direction pressed and a Rockford sprite at index \<open>p\<close>: when the
  target cell holds no sprite, Rockford moves onto it; when the sprite found there is dirt or
  a diamond, Rockford moves onto it and that sprite is removed from the list (which gets one
  shorter, and holds the moved Rockford); with any other sprite there, nothing changes.
\<close>

theorem player_movement:
  assumes noinbox: "findIndex (\<lambda>sprite. name sprite = ''inbox'') (sprites w) = None"
    and dir: "getDirectionFromJoypad (joypad w) \<noteq> 0"
    and player: "findIndex (\<lambda>sprite. name sprite = ''rockford'') (sprites w) = Some p"
    and disp: "getDXDYFromDirection (Some (getDirectionFromJoypad (joypad w))) = (dx, dy)"
  shows
    "(getSpriteAt (sprites w) (col (sprites w ! p) + dx) (row (sprites w ! p) + dy) = None
      \<longrightarrow> updatePlayer w
            = Inr (w\<lparr>sprites := (sprites w)[p := (sprites w ! p)\<lparr>col := col (sprites w ! p) + dx,
                                                               row := row (sprites w ! p) + dy\<rparr>]\<rparr>))
     \<and> (\<forall>t. getSpriteAt (sprites w) (col (sprites w ! p) + dx) (row (sprites w ! p) + dy) = Some t
            \<and> (name (sprites w ! t) = ''dirt'' \<or> name (sprites w ! t) = ''diamond'')
      \<longrightarrow> updatePlayer w
            = Inr (w\<lparr>sprites := splice1 t
                      ((sprites w)[p := (sprites w ! p)\<lparr>col := col (sprites w ! p) + dx,
                                                        row := row (sprites w ! p) + dy\<rparr>])\<rparr>)
          \<and> length (splice1 t
                      ((sprites w)[p := (sprites w ! p)\<lparr>col := col (sprites w ! p) + dx,
                                                        row := row (sprites w ! p) + dy\<rparr>]))
              = length (sprites w) - 1
          \<and> (sprites w ! p)\<lparr>col := col (sprites w ! p) + dx, row := row (sprites w ! p) + dy\<rparr>
              \<in> set (splice1 t
                      ((sprites w)[p := (sprites w ! p)\<lparr>col := col (sprites w ! p) + dx,
                                                        row := row (sprites w ! p) + dy\<rparr>])))
     \<and> (\<forall>t. getSpriteAt (sprites w) (col (sprites w ! p) + dx) (row (sprites w ! p) + dy) = Some t
            \<and> \<not> (name (sprites w ! t) = ''dirt'' \<or> name (sprites w ! t) = ''diamond'')
      \<longrightarrow> updatePlayer w = Inr w)"
proof -
  let ?rk' = "(sprites w ! p)\<lparr>col := col (sprites w ! p) + dx, row := row (sprites w ! p) + dy\<rparr>"
  have pl: "p < length (sprites w)" and pn: "name (sprites w ! p) = ''rockford''"
    using findIndex_Some [OF player] by simp_all
  have eqs: "(getSpriteAt (sprites w) (col (sprites w ! p) + dx) (row (sprites w ! p) + dy) = None
      \<longrightarrow> updatePlayer w = Inr (w\<lparr>sprites := (sprites w)[p := ?rk']\<rparr>))
     \<and> (\<forall>t. getSpriteAt (sprites w) (col (sprites w ! p) + dx) (row (sprites w ! p) + dy) = Some t
            \<and> (name (sprites w ! t) = ''dirt'' \<or> name (sprites w ! t) = ''diamond'')
      \<longrightarrow> updatePlayer w = Inr (w\<lparr>sprites := splice1 t ((sprites w)[p := ?rk'])\<rparr>))
     \<and> (\<forall>t. getSpriteAt (sprites w) (col (sprites w ! p) + dx) (row (sprites w ! p) + dy) = Some t
            \<and> \<not> (name (sprites w ! t) = ''dirt'' \<or> name (sprites w ! t) = ''diamond'')
      \<longrightarrow> updatePlayer w = Inr w)"
    using noinbox dir player disp by (simp add: updatePlayer_def Let_def)
  have rest: "length (splice1 t ((sprites w)[p := ?rk'])) = length (sprites w) - 1
              \<and> ?rk' \<in> set (splice1 t ((sprites w)[p := ?rk']))"
    if t: "getSpriteAt (sprites w) (col (sprites w ! p) + dx) (row (sprites w ! p) + dy) = Some t"
      and n: "name (sprites w ! t) = ''dirt'' \<or> name (sprites w ! t) = ''diamond''" for t
  proof -
    have tl: "t < length (sprites w)" using getSpriteAt_Some [OF t] by simp
    have tp: "t \<noteq> p" using n pn by auto
    have len: "length (splice1 t ((sprites w)[p := ?rk'])) = length (sprites w) - 1"
      using tl by (simp add: splice1_def)
    have "?rk' \<in> set (splice1 t ((sprites w)[p := ?rk']))"
    proof (cases "p < t")
      case True
      then have "take t ((sprites w)[p := ?rk']) ! p = ?rk'" using tl by simp
      moreover have "p < length (take t ((sprites w)[p := ?rk']))" using True tl by simp
      ultimately have "?rk' \<in> set (take t ((sprites w)[p := ?rk']))"
        by (metis nth_mem)
      then show ?thesis by (simp add: splice1_def)
    next
      case False
      with tp have lt: "t < p" by simp
      then have "drop (Suc t) ((sprites w)[p := ?rk']) ! (p - Suc t) = ?rk'" using pl by simp
      moreover have "p - Suc t < length (drop (Suc t) ((sprites w)[p := ?rk']))" using lt pl by simp
      ultimately have "?rk' \<in> set (drop (Suc t) ((sprites w)[p := ?rk']))"
        by (metis nth_mem)
      then show ?thesis by (simp add: splice1_def)
    qed
    with len show ?thesis by simp
  qed
  from eqs rest show ?thesis by blast
qed

theorem player_movement_witness:
  "findIndex (\<lambda>sprite. name sprite = ''inbox'')
     [newSprite 5 5 rockfordType, newSprite 6 5 dirtType, newSprite 7 3 boulderType] = None
   \<and> getDirectionFromJoypad 2 = 3
   \<and> findIndex (\<lambda>sprite. name sprite = ''rockford'')
       [newSprite 5 5 rockfordType, newSprite 6 5 dirtType, newSprite 7 3 boulderType] = Some 0
   \<and> getDXDYFromDirection (Some 3) = (1, 0)
   \<and> getSpriteAt [newSprite 5 5 rockfordType, newSprite 6 5 dirtType, newSprite 7 3 boulderType]
        (5 + 1) (5 + 0) = Some 1
   \<and> updatePlayer (world0\<lparr>sprites := [newSprite 5 5 rockfordType, newSprite 6 5 dirtType,
                                      newSprite 7 3 boulderType], joypad := 2\<rparr>)
       = Inr (world0\<lparr>sprites := [newSprite 6 5 rockfordType, newSprite 7 3 boulderType],
                     joypad := 2\<rparr>)"
proof -
  let ?w = "world0\<lparr>sprites := [newSprite 5 5 rockfordType, newSprite 6 5 dirtType,
                                newSprite 7 3 boulderType], joypad := 2\<rparr>"
  have a: "findIndex (\<lambda>sprite. name sprite = ''inbox'') (sprites ?w) = None"
    by (simp add: newSprite_def rockfordType_def dirtType_def boulderType_def Let_def)
  have d: "getDirectionFromJoypad (joypad ?w) = 3"
    by (simp add: getDirectionFromJoypad_def isJoypadPressed_def JOYPAD_UP_def JOYPAD_RIGHT_def)
  then have b: "getDirectionFromJoypad (joypad ?w) \<noteq> 0" by simp
  have c: "findIndex (\<lambda>sprite. name sprite = ''rockford'') (sprites ?w) = Some 0"
    by (simp add: newSprite_def rockfordType_def Let_def)
  have e: "getDXDYFromDirection (Some (getDirectionFromJoypad (joypad ?w))) = (1, 0)"
    using d by (simp add: getDXDYFromDirection_def)
  from player_movement [OF a b c e] a d c e show ?thesis
    by (simp add: getSpriteAt_def newSprite_def rockfordType_def dirtType_def boulderType_def
        Let_def splice1_def)
qed


subsection \<open>Exclusivity\<close>

text \<open>
  C4. In every state at a tick boundary (after \<^verbatim>\<open>setup\<close>, after a change of the keys,
  after an \<^verbatim>\<open>update\<close> that returns), no two sprites of the list are in the same cell.
\<close>

theorem sprite_exclusivity:
  assumes "reachableFrom datas w0 w"
  shows "distinct (map (\<lambda>s. (col s, row s)) (sprites w))
         \<and> (\<forall>i j. i < length (sprites w) \<and> j < length (sprites w) \<and> i \<noteq> j \<longrightarrow>
               (col (sprites w ! i), row (sprites w ! i)) \<noteq> (col (sprites w ! j), row (sprites w ! j)))"
proof -
  from assms have "exclusive w"
  proof (induction rule: reachableFrom.induct)
    case (afterSetup w)
    then show ?case by (rule setupGame_exclusive)
  next
    case (afterKey w jp)
    then show ?case by (simp add: exclusive_def)
  next
    case (afterUpdate w w')
    then show ?case using update_exclusive by blast
  qed
  then have d: "distinct (map (\<lambda>s. (col s, row s)) (sprites w))"
    by (simp add: exclusive_def coord_def [abs_def])
  then show ?thesis
    by (auto simp: distinct_conv_nth)
qed


lemma joypad_setupCell: "joypad (setupCell r c w) = joypad w"
  by (simp add: setupCell_def Let_def split: option.splits)

lemma joypad_fold_setupCell:
  "joypad (fold (\<lambda>p. setupCell (fst p) (snd p)) ps w) = joypad w"
  by (induction ps arbitrary: w) (simp_all add: joypad_setupCell)

lemma joypad_expandSprites: "joypad (expandSprites w) = joypad w"
  by (simp add: expandSprites_def fold_fold_product joypad_fold_setupCell)

lemma update_idle:
  assumes "getDirectionFromJoypad (joypad w) = 0"
  shows "\<exists>w'. update w = Inr w'"
proof -
  have "\<exists>w1. updatePlayer w = Inr w1"
    using assms by (simp add: updatePlayer_def typeNamed_rockford split: option.splits)
  then show ?thesis by (auto simp: update_def Let_def)
qed

theorem sprite_exclusivity_witness:
  "\<exists>w w'. setupGame rawCaveDatas world0 = Inr w \<and> update w = Inr w'
      \<and> reachableFrom rawCaveDatas world0 w'
      \<and> distinct (map (\<lambda>s. (col s, row s)) (sprites w'))"
proof -
  from decode_border [OF cave1_border, of 1 cave0] cave_lookup [of 1]
  obtain seed g where "caveLoad rawCaveDatas 1 1 cave0 = Inr (seed, g)"
    by (auto simp: caveLoad_def)
  then have s: "setupGame rawCaveDatas world0
                  = Inr (expandSprites (world0\<lparr>cave := g, currentSeed := seed\<rparr>))"
    by (simp add: setupGame_def world0_def)
  let ?w = "expandSprites (world0\<lparr>cave := g, currentSeed := seed\<rparr>)"
  have "joypad ?w = 0" by (simp add: joypad_expandSprites world0_def)
  then have "getDirectionFromJoypad (joypad ?w) = 0"
    by (simp add: getDirectionFromJoypad_def isJoypadPressed_def)
  then obtain w' where u: "update ?w = Inr w'" using update_idle by blast
  have r: "reachableFrom rawCaveDatas world0 w'"
    using reachableFrom.afterUpdate [OF reachableFrom.afterSetup [OF s] u] .
  from sprite_exclusivity [OF r] s u r show ?thesis by blast
qed


end
